theory Spec2Isabelle
  imports Main "HOL-Library.Word"
begin

unbundle bit_operations_syntax

section \<open>The request-disposition helpers of keycloak-proxy (misc.go)\<close>

text \<open>
  A shallow embedding of \<^verbatim>\<open>misc.go\<close>. Go strings are byte sequences, and so is
  \<^typ>\<open>string\<close> here: a \<^typ>\<open>char\<close> is one byte. Calls into Go's standard library
  (\<^verbatim>\<open>encoding/base64\<close>, \<^verbatim>\<open>strings\<close>, \<^verbatim>\<open>path\<close>, \<^verbatim>\<open>time\<close>, \<^verbatim>\<open>net/url\<close>,
  \<^verbatim>\<open>net/http\<close>, \<^verbatim>\<open>context\<close>) are modelled by what the library documents; declarations of the
  package that live in other files are parameters of the model.
\<close>

subsection \<open>encoding/base64: RawURLEncoding\<close>

text \<open>
  \<^verbatim>\<open>RawURLEncoding\<close> is the URL-safe alphabet of RFC 4648 without padding, decoding
  in non-strict mode. The decoder reports malformed input as \<^verbatim>\<open>CorruptInputError\<close>
  (its byte offset is not modelled) and skips carriage returns and line feeds.
\<close>

datatype error = CorruptInputError

definition encodeURL :: string where
  "encodeURL = ''ABCDEFGHIJKLMNOPQRSTUVWXYZabcdefghijklmnopqrstuvwxyz0123456789-_''"

text \<open>\<^verbatim>\<open>enc.encode[v]\<close>: always read at an index masked with \<^verbatim>\<open>0x3F\<close>.\<close>

definition enc :: "nat \<Rightarrow> char" where
  "enc v = encodeURL ! v"

text \<open>
  \<^verbatim>\<open>enc.decodeMap\<close>: the position of a byte in the alphabet; \<open>None\<close> stands for the
  entry \<^verbatim>\<open>0xFF\<close> of a byte outside the alphabet.
\<close>

definition decodeMap :: "char \<Rightarrow> nat option" where
  "decodeMap c = map_of (zip encodeURL [0..<length encodeURL]) c"

text \<open>
  \<^verbatim>\<open>Encoding.Encode\<close>: three source bytes make four sextets; a remainder of two
  bytes makes three characters and a remainder of one byte two, with no padding.
  \<^verbatim>\<open>val\<close> is a \<^verbatim>\<open>uint\<close> below \<open>2 ^ 24\<close>, so no shift wraps.
\<close>

fun EncodeToString :: "string \<Rightarrow> string" where
  "EncodeToString (a # b # c # src) =
     (let val = push_bit 16 (of_char a) OR push_bit 8 (of_char b) OR of_char c :: nat
      in enc (drop_bit 18 val AND 63) # enc (drop_bit 12 val AND 63) #
         enc (drop_bit 6 val AND 63) # enc (val AND 63) # EncodeToString src)"
| "EncodeToString [a, b] =
     (let val = push_bit 16 (of_char a) OR push_bit 8 (of_char b) :: nat
      in [enc (drop_bit 18 val AND 63), enc (drop_bit 12 val AND 63),
          enc (drop_bit 6 val AND 63)])"
| "EncodeToString [a] =
     (let val = push_bit 16 (of_char a) :: nat
      in [enc (drop_bit 18 val AND 63), enc (drop_bit 12 val AND 63)])"
| "EncodeToString [] = []"

text \<open>
  The tail of \<^verbatim>\<open>decodeQuantum\<close>: \<^verbatim>\<open>dlen\<close> sextets give \<^verbatim>\<open>dlen - 1\<close> bytes;
  \<^verbatim>\<open>byte(val >> k)\<close> keeps the low eight bits, as \<^const>\<open>char_of\<close> does.
\<close>

fun quantum :: "nat list \<Rightarrow> string" where
  "quantum [d0, d1, d2, d3] =
     (let val = push_bit 18 d0 OR push_bit 12 d1 OR push_bit 6 d2 OR d3
      in [char_of (drop_bit 16 val), char_of (drop_bit 8 val), char_of val])"
| "quantum [d0, d1, d2] =
     (let val = push_bit 18 d0 OR push_bit 12 d1 OR push_bit 6 d2
      in [char_of (drop_bit 16 val), char_of (drop_bit 8 val)])"
| "quantum [d0, d1] =
     (let val = push_bit 18 d0 OR push_bit 12 d1
      in [char_of (drop_bit 16 val)])"
| "quantum _ = []"

text \<open>
  \<^verbatim>\<open>Encoding.Decode\<close> with \<^verbatim>\<open>decodeQuantum\<close> inlined: \<open>dbuf\<close> holds the sextets
  of the quantum being read. A byte of the alphabet joins the quantum; a line break
  is skipped; any other byte is corrupt input (there is no padding character). At
  the end of the input an empty quantum is fine, a single sextet is corrupt input,
  and two or three sextets are a final short quantum.
\<close>

fun decodeLoop :: "nat list \<Rightarrow> string \<Rightarrow> error + string" where
  "decodeLoop dbuf [] =
     (if length dbuf = 0 then Inr []
      else if length dbuf = 1 then Inl CorruptInputError
      else Inr (quantum dbuf))"
| "decodeLoop dbuf (c # src) =
     (case decodeMap c of
        Some out \<Rightarrow>
          if length dbuf = 3
          then (case decodeLoop [] src of
                  Inl e \<Rightarrow> Inl e
                | Inr rest \<Rightarrow> Inr (quantum (dbuf @ [out]) @ rest))
          else decodeLoop (dbuf @ [out]) src
      | None \<Rightarrow>
          if c = CHR 0x0A \<or> c = CHR 0x0D then decodeLoop dbuf src
          else Inl CorruptInputError)"

definition DecodeString :: "string \<Rightarrow> error + string" where
  "DecodeString s = decodeLoop [] s"

subsection \<open>strings, path and time\<close>

definition HasPrefix :: "string \<Rightarrow> string \<Rightarrow> bool" where
  "HasPrefix s pre = (length pre \<le> length s \<and> take (length pre) s = pre)"

definition TrimPrefix :: "string \<Rightarrow> string \<Rightarrow> string" where
  "TrimPrefix s pre = (if HasPrefix s pre then drop (length pre) s else s)"

text \<open>
  \<^verbatim>\<open>path.Base\<close>: the last element of a path, after removing trailing slashes;
  \<^verbatim>\<open>"."\<close> for the empty path and \<^verbatim>\<open>"/"\<close> for a path of slashes only.
\<close>

definition path_Base :: "string \<Rightarrow> string" where
  "path_Base p =
     (if p = [] then ''.''
      else let stripped = rev (dropWhile (\<lambda>c. c = CHR ''/'') (rev p));
               last_elem = rev (takeWhile (\<lambda>c. c \<noteq> CHR ''/'') (rev stripped))
           in if last_elem = [] then ''/'' else last_elem)"

text \<open>
  An instant (\<^verbatim>\<open>time.Time\<close>) is a number of nanoseconds on the wall clock; a
  \<^verbatim>\<open>time.Duration\<close> is an \<^verbatim>\<open>int64\<close> of nanoseconds. \<^verbatim>\<open>Time.Sub\<close> saturates:
  a difference outside the range of \<^verbatim>\<open>Duration\<close> is returned as the largest or
  smallest \<^verbatim>\<open>Duration\<close>. \<^verbatim>\<open>time.Until(t)\<close> is \<^verbatim>\<open>t.Sub(time.Now())\<close>; the clock
  reading \<open>now\<close> is an argument of the model.
\<close>

type_synonym Time = int
type_synonym Duration = int

definition minDuration :: Duration where
  "minDuration = - (2 ^ 63)"

definition maxDuration :: Duration where
  "maxDuration = 2 ^ 63 - 1"

definition time_Sub :: "Time \<Rightarrow> Time \<Rightarrow> Duration" where
  "time_Sub t u =
     (let d = t - u
      in if d < minDuration then minDuration
         else if maxDuration < d then maxDuration
         else d)"

definition time_Until :: "Time \<Rightarrow> Time \<Rightarrow> Duration" where
  "time_Until now t = time_Sub t now"

subsection \<open>path.Split and path.Clean\<close>

definition HasSuffix :: "string \<Rightarrow> string \<Rightarrow> bool" where
  "HasSuffix s suf = (length suf \<le> length s \<and> drop (length s - length suf) s = suf)"

text \<open>
  \<^verbatim>\<open>path.Split\<close>: the path up to and including its last slash, and what follows it.
\<close>

definition path_Split :: "string \<Rightarrow> string \<times> string" where
  "path_Split p =
     (let file = rev (takeWhile (\<lambda>c. c \<noteq> CHR ''/'') (rev p))
      in (take (length p - length file) p, file))"

text \<open>
  \<^verbatim>\<open>path.Clean\<close> reads a path element by element, the elements being what stands
  between slashes: an empty element and \<^verbatim>\<open>.\<close> are dropped; \<^verbatim>\<open>..\<close> removes the
  element before it, is dropped at the root of a rooted path, and is kept at the
  front of a path that is not rooted; any other element is kept. The elements kept
  are joined by single slashes, after the leading slash of a rooted path; the empty
  result is \<^verbatim>\<open>.\<close>.
\<close>

fun path_elements :: "string \<Rightarrow> string \<Rightarrow> string list" where
  "path_elements cur [] = [cur]"
| "path_elements cur (c # cs) =
     (if c = CHR ''/'' then cur # path_elements [] cs else path_elements (cur @ [c]) cs)"

definition clean_element :: "bool \<Rightarrow> string list \<Rightarrow> string \<Rightarrow> string list" where
  "clean_element rooted out el =
     (if el = [] \<or> el = ''.'' then out
      else if el = ''..''
      then (if out \<noteq> [] \<and> last out \<noteq> ''..'' then butlast out
            else if rooted then out
            else out @ [''..''])
      else out @ [el])"

fun join_slash :: "string list \<Rightarrow> string" where
  "join_slash [] = []"
| "join_slash [el] = el"
| "join_slash (el # els) = el @ ''/'' @ join_slash els"

definition path_Clean :: "string \<Rightarrow> string" where
  "path_Clean p =
     (if p = [] then ''.''
      else let rooted = (take 1 p = ''/'');
               out = foldl (clean_element rooted) [] (path_elements [] p)
           in if rooted then ''/'' @ join_slash out
              else if out = [] then ''.''
              else join_slash out)"

subsection \<open>net/url: what Redirect reads of url.Parse\<close>

text \<open>
  \<^verbatim>\<open>http.Redirect\<close> rewrites its target only when \<^verbatim>\<open>url.Parse\<close> accepts it and finds
  neither a scheme nor a host. The definitions below follow \<^verbatim>\<open>url.Parse\<close> as far as
  that question goes.
\<close>

definition stringContainsCTLByte :: "string \<Rightarrow> bool" where
  "stringContainsCTLByte s = list_ex (\<lambda>c. (of_char c :: nat) < 32 \<or> (of_char c :: nat) = 127) s"

definition isLetter :: "char \<Rightarrow> bool" where
  "isLetter c = ((97 \<le> (of_char c :: nat) \<and> (of_char c :: nat) \<le> 122)
                 \<or> (65 \<le> (of_char c :: nat) \<and> (of_char c :: nat) \<le> 90))"

definition isDigit :: "char \<Rightarrow> bool" where
  "isDigit c = (48 \<le> (of_char c :: nat) \<and> (of_char c :: nat) \<le> 57)"

definition ishex :: "char \<Rightarrow> bool" where
  "ishex c = (isDigit c
              \<or> (97 \<le> (of_char c :: nat) \<and> (of_char c :: nat) \<le> 102)
              \<or> (65 \<le> (of_char c :: nat) \<and> (of_char c :: nat) \<le> 70))"

datatype url_error = MissingProtocolScheme

text \<open>
  \<^verbatim>\<open>getScheme\<close>: \<open>seen\<close> is the part of \<open>rawURL\<close> already read. The result is the
  scheme and what follows its colon, or no scheme and the whole of \<open>rawURL\<close>.
\<close>

fun getScheme_from :: "string \<Rightarrow> string \<Rightarrow> string \<Rightarrow> url_error + string \<times> string" where
  "getScheme_from rawURL seen [] = Inr ([], rawURL)"
| "getScheme_from rawURL seen (c # cs) =
     (if isLetter c then getScheme_from rawURL (seen @ [c]) cs
      else if isDigit c \<or> c = CHR ''+'' \<or> c = CHR ''-'' \<or> c = CHR ''.''
      then (if seen = [] then Inr ([], rawURL) else getScheme_from rawURL (seen @ [c]) cs)
      else if c = CHR '':''
      then (if seen = [] then Inl MissingProtocolScheme else Inr (seen, cs))
      else Inr ([], rawURL))"

definition getScheme :: "string \<Rightarrow> url_error + string \<times> string" where
  "getScheme rawURL = getScheme_from rawURL [] rawURL"

text \<open>
  \<^verbatim>\<open>unescape\<close> outside a host fails exactly when a percent sign is not followed by
  two hexadecimal digits.
\<close>

fun escapes_ok :: "string \<Rightarrow> bool" where
  "escapes_ok [] = True"
| "escapes_ok (c # cs) =
     (if c = CHR ''%''
      then (case cs of
              h1 # h2 # cs' \<Rightarrow> ishex h1 \<and> ishex h2 \<and> escapes_ok cs'
            | _ \<Rightarrow> False)
      else escapes_ok cs)"

definition validUserinfo :: "string \<Rightarrow> bool" where
  "validUserinfo s =
     list_all (\<lambda>c. isLetter c \<or> isDigit c \<or> c \<in> set ''-._:~!$&()*+,;=%@'' \<or> c = CHR 0x27) s"

text \<open>
  \<^verbatim>\<open>parseAuthority\<close> with an empty host: the authority is empty, or it ends in the
  \<^verbatim>\<open>@\<close> that closes a valid user part. With any other authority \<^verbatim>\<open>url.Parse\<close> fails
  or finds a host.
\<close>

definition authority_without_host :: "string \<Rightarrow> bool" where
  "authority_without_host authority =
     (if CHR ''@'' \<notin> set authority then authority = []
      else let host = rev (takeWhile (\<lambda>c. c \<noteq> CHR ''@'') (rev authority));
               userinfo = take (length authority - length host - 1) authority
           in host = [] \<and> validUserinfo userinfo
              \<and> (if CHR '':'' \<notin> set userinfo then escapes_ok userinfo
                  else escapes_ok (takeWhile (\<lambda>c. c \<noteq> CHR '':'') userinfo)
                       \<and> escapes_ok (drop 1 (dropWhile (\<lambda>c. c \<noteq> CHR '':'') userinfo))))"

text \<open>
  \<^verbatim>\<open>url.Parse(rawURL)\<close> returns no error and a URL whose \<^verbatim>\<open>Scheme\<close> and \<^verbatim>\<open>Host\<close> are
  empty: the fragment is cut off at the first \<^verbatim>\<open>#\<close> and the query at the first
  \<^verbatim>\<open>?\<close>; control bytes, a colon in the first element of a path that does not start
  with a slash, and malformed escapes in the path or the fragment are errors.
\<close>

definition parses_without_scheme_and_host :: "string \<Rightarrow> bool" where
  "parses_without_scheme_and_host rawURL =
     (let u = takeWhile (\<lambda>c. c \<noteq> CHR ''#'') rawURL;
          frag = drop 1 (dropWhile (\<lambda>c. c \<noteq> CHR ''#'') rawURL)
      in if stringContainsCTLByte u then False
         else if u = ''*'' then escapes_ok frag
         else (case getScheme u of
                 Inl err \<Rightarrow> False
               | Inr (scheme, rest0) \<Rightarrow>
                   if scheme \<noteq> [] then False
                   else let rest = takeWhile (\<lambda>c. c \<noteq> CHR ''?'') rest0
                        in if \<not> HasPrefix rest ''/''
                              \<and> CHR '':'' \<in> set (takeWhile (\<lambda>c. c \<noteq> CHR ''/'') rest)
                           then False
                           else if HasPrefix rest ''//'' \<and> \<not> HasPrefix rest ''///''
                           then authority_without_host (takeWhile (\<lambda>c. c \<noteq> CHR ''/'') (drop 2 rest))
                                \<and> escapes_ok (dropWhile (\<lambda>c. c \<noteq> CHR ''/'') (drop 2 rest))
                                \<and> escapes_ok frag
                           else escapes_ok rest \<and> escapes_ok frag))"

subsection \<open>Requests, contexts and the response writer\<close>

text \<open>
  The cookies of a request, as \<^verbatim>\<open>req.Cookies()\<close> returns them: names and values,
  in the order of the \<^verbatim>\<open>Cookie\<close> header. \<^verbatim>\<open>req.Header.Set("Cookie", "")\<close> leaves
  no cookie, and \<^verbatim>\<open>req.AddCookie\<close> appends one to the header.
\<close>

record cookie =
  Name :: string
  Value :: string

text \<open>
  Modelled from the spec: the struct \<^verbatim>\<open>RequestScope\<close> is declared in another file;
  the spec gives it the field \<^verbatim>\<open>AccessDenied\<close>.
\<close>

record RequestScope =
  AccessDenied :: bool

text \<open>
  A context maps keys to interface values. The value under a key is the nil
  interface (nothing stored), a pointer to a \<^verbatim>\<open>RequestScope\<close> (\<open>None\<close> is the nil
  pointer, \<open>Some a\<close> the address \<open>a\<close> of a scope on the heap), or a value of some
  other dynamic type. \<^verbatim>\<open>contextScopeName\<close> is the key this package keeps its scope
  under.
\<close>

datatype ctx_key = contextScopeName | otherKey string

datatype iface = INil | IScopePtr "nat option" | IOther string

type_synonym ctx = "ctx_key \<Rightarrow> iface"

definition WithValue :: "ctx \<Rightarrow> ctx_key \<Rightarrow> iface \<Rightarrow> ctx" where
  "WithValue parent key val = parent(key := val)"

text \<open>
  Of a request the code and \<^verbatim>\<open>http.Redirect\<close> read the method, the path of the URL
  (\<^verbatim>\<open>req.URL.Path\<close>), the request URI (\<^verbatim>\<open>req.URL.RequestURI()\<close>), the cookies and
  the context.
\<close>

record request =
  Method :: string
  URL_Path :: string
  RequestURI :: string
  Cookies :: "cookie list"
  Context :: ctx

definition Header_Set_Cookie_empty :: "request \<Rightarrow> request" where
  "Header_Set_Cookie_empty req = req\<lparr>Cookies := []\<rparr>"

definition AddCookie :: "request \<Rightarrow> cookie \<Rightarrow> request" where
  "AddCookie req c = req\<lparr>Cookies := Cookies req @ [\<lparr>Name = Name c, Value = Value c\<rparr>]\<rparr>"

text \<open>
  What the code does to the world outside its arguments: the scopes that pointers
  refer to (\<open>heap\<close>, with \<open>fresh\<close> the next address to allocate), the header map of
  the \<^verbatim>\<open>http.ResponseWriter\<close> (\<open>header\<close>), the calls of \<^verbatim>\<open>WriteHeader\<close> and \<^verbatim>\<open>Write\<close>
  made on it in order (\<open>resp\<close>), and the lines logged at error level (\<open>logs\<close>).
\<close>

datatype event = WriteHeader nat | Write string

record world =
  heap :: "nat \<Rightarrow> RequestScope"
  fresh :: nat
  header :: "string \<rightharpoonup> string list"
  resp :: "event list"
  logs :: "string list"

datatype panic = TypeAssertion | NilDereference

text \<open>
  A disposition returns a context, or panics; either way it leaves a world behind.
\<close>

type_synonym outcome = "panic \<times> world + ctx \<times> world"

definition StatusTemporaryRedirect :: nat where "StatusTemporaryRedirect = 307"
definition StatusUnauthorized :: nat where "StatusUnauthorized = 401"
definition StatusForbidden :: nat where "StatusForbidden = 403"

subsection \<open>net/http: Redirect\<close>

text \<open>
  \<^verbatim>\<open>http.StatusText\<close>, for the three status codes of this file; net/http knows more.
\<close>

definition StatusText :: "nat \<Rightarrow> string" where
  "StatusText code =
     (if code = 307 then ''Temporary Redirect''
      else if code = 401 then ''Unauthorized''
      else if code = 403 then ''Forbidden''
      else [])"

definition hexdigit :: "nat \<Rightarrow> char" where
  "hexdigit n = ''0123456789abcdef'' ! n"

text \<open>
  \<^verbatim>\<open>hexEscapeNonASCII\<close>: a byte from \<^verbatim>\<open>0x80\<close> up becomes a percent sign and its two
  lower-case hexadecimal digits.
\<close>

fun hexEscapeNonASCII :: "string \<Rightarrow> string" where
  "hexEscapeNonASCII [] = []"
| "hexEscapeNonASCII (c # s) =
     (if 128 \<le> (of_char c :: nat)
      then CHR ''%'' # hexdigit ((of_char c :: nat) div 16) # hexdigit ((of_char c :: nat) mod 16)
             # hexEscapeNonASCII s
      else c # hexEscapeNonASCII s)"

fun htmlEscape :: "string \<Rightarrow> string" where
  "htmlEscape [] = []"
| "htmlEscape (c # s) =
     (if c = CHR ''&'' then ''&amp;'' @ htmlEscape s
      else if c = CHR ''<'' then ''&lt;'' @ htmlEscape s
      else if c = CHR ''>'' then ''&gt;'' @ htmlEscape s
      else if c = CHR 0x22 then ''&#34;'' @ htmlEscape s
      else if c = CHR 0x27 then ''&#39;'' @ htmlEscape s
      else c # htmlEscape s)"

text \<open>
  The target as \<^verbatim>\<open>http.Redirect\<close> rewrites it. A target that \<^verbatim>\<open>url.Parse\<close> accepts
  with no scheme and no host is made absolute against the directory of the request
  path unless it starts with a slash; its path, up to the first \<^verbatim>\<open>?\<close>, is cleaned,
  keeping a trailing slash; the query is put back. Any other target is left as it is.
\<close>

definition redirectTarget :: "request \<Rightarrow> string \<Rightarrow> string" where
  "redirectTarget r url =
     (if parses_without_scheme_and_host url
      then (let oldpath = (if URL_Path r = [] then ''/'' else URL_Path r);
                url1 = (if \<not> HasPrefix url ''/'' then fst (path_Split oldpath) @ url else url);
                query = dropWhile (\<lambda>c. c \<noteq> CHR ''?'') url1;
                url2 = takeWhile (\<lambda>c. c \<noteq> CHR ''?'') url1;
                trailing = HasSuffix url2 ''/'';
                url3 = path_Clean url2;
                url4 = (if trailing \<and> \<not> HasSuffix url3 ''/'' then url3 @ ''/'' else url3)
            in url4 @ query)
      else url)"

text \<open>
  The body \<^verbatim>\<open>http.Redirect\<close> prints with \<^verbatim>\<open>Fprintln\<close>: a link to the rewritten
  target, a full stop and two line feeds.
\<close>

definition redirectBody :: "string \<Rightarrow> nat \<Rightarrow> string" where
  "redirectBody url code =
     ''<a href='' @ [CHR 0x22] @ htmlEscape url @ [CHR 0x22] @ ''>'' @ StatusText code
       @ ''</a>.'' @ [CHR 0x0A, CHR 0x0A]"

text \<open>
  \<^verbatim>\<open>http.Redirect\<close>: whether the header map already has a \<^verbatim>\<open>Content-Type\<close> is read
  first; \<^verbatim>\<open>Location\<close> is set to the rewritten target with its bytes outside ASCII
  escaped; without an earlier \<^verbatim>\<open>Content-Type\<close>, a GET or HEAD request gets one and
  a GET request the body, written after the status code.
\<close>

definition http_Redirect :: "world \<Rightarrow> request \<Rightarrow> string \<Rightarrow> nat \<Rightarrow> world" where
  "http_Redirect w r url code =
     (let url' = redirectTarget r url;
          hadCT = (header w ''Content-Type'' \<noteq> None);
          w1 = w\<lparr>header := (header w)(''Location'' \<mapsto> [hexEscapeNonASCII url'])\<rparr>;
          w2 = (if \<not> hadCT \<and> (Method r = ''GET'' \<or> Method r = ''HEAD'')
                then w1\<lparr>header := (header w1)(''Content-Type'' \<mapsto> [''text/html; charset=utf-8''])\<rparr>
                else w1);
          w3 = w2\<lparr>resp := resp w2 @ [WriteHeader code]\<rparr>
      in if \<not> hadCT \<and> Method r = ''GET''
         then w3\<lparr>resp := resp w3 @ [Write (redirectBody url' code)]\<rparr>
         else w3)"

subsection \<open>The proxy and its configuration\<close>

record Config =
  AccessTokenDuration :: Duration
  NoRedirects :: bool
  SkipTokenVerification :: bool
  ForbiddenPage :: string
  Tags :: "string \<rightharpoonup> string"

record Identity =
  ExpiresAt :: Time

text \<open>
  The proxy is its configuration together with the parts of the package that other
  files define, taken as parameters: the predicate \<^verbatim>\<open>hasCustomForbiddenPage\<close> and the
  method \<^verbatim>\<open>WithOAuthURI\<close> of the configuration, the constant \<^verbatim>\<open>authorizationURL\<close>,
  the template renderer \<^verbatim>\<open>Render\<close> (the calls it makes on the response writer and
  its error, if any) and \<^verbatim>\<open>parseToken\<close> (an error or the identity of the token).
\<close>

record oauthProxy =
  config :: Config
  hasCustomForbiddenPage :: "Config \<Rightarrow> bool"
  WithOAuthURI :: "Config \<Rightarrow> string \<Rightarrow> string"
  authorizationURL :: string
  Render :: "string \<Rightarrow> (string \<rightharpoonup> string) \<Rightarrow> event list \<times> string option"
  parseToken :: "string \<Rightarrow> string + Identity"

subsection \<open>misc.go\<close>

definition PathParamPrefix :: string where
  "PathParamPrefix = '':path:''"

text \<open>
  \<^verbatim>\<open>filterCookies\<close>, with \<open>flt\<close> for its argument \<^verbatim>\<open>filter\<close>: the inner loop over
  the filter stops at the first name that matches and reports whether one did.
\<close>

fun filterCookies_match :: "request \<Rightarrow> cookie \<Rightarrow> string list \<Rightarrow> request \<times> bool" where
  "filterCookies_match req x [] = (req, False)"
| "filterCookies_match req x (n # flt) =
     (if Name x = n
      then (AddCookie req \<lparr>Name = Name x, Value = ''censored''\<rparr>, True)
      else filterCookies_match req x flt)"

fun filterCookies_loop :: "request \<Rightarrow> cookie list \<Rightarrow> string list \<Rightarrow> request" where
  "filterCookies_loop req [] flt = req"
| "filterCookies_loop req (x # cookies) flt =
     (let (req1, found) = filterCookies_match req x flt;
          req2 = (if \<not> found then AddCookie req1 x else req1)
      in filterCookies_loop req2 cookies flt)"

definition filterCookies :: "request \<Rightarrow> string list \<Rightarrow> error option \<times> request" where
  "filterCookies req flt =
     (let cookies = Cookies req;
          req0 = Header_Set_Cookie_empty req
      in (None, filterCookies_loop req0 cookies flt))"

text \<open>
  \<^verbatim>\<open>revokeProxy\<close>: the value under the scope key is compared with nil; any other
  value is asserted to be a \<^verbatim>\<open>*RequestScope\<close>, which panics for another type, and
  the assignment through the pointer panics when it is nil.
\<close>

definition revokeProxy :: "oauthProxy \<Rightarrow> world \<Rightarrow> request \<Rightarrow> outcome" where
  "revokeProxy r w req =
     (let sc = Context req contextScopeName
      in case (case sc of
                 INil \<Rightarrow> Inr (Some (fresh w),
                               w\<lparr>heap := (heap w)(fresh w := \<lparr>AccessDenied = True\<rparr>),
                                 fresh := Suc (fresh w)\<rparr>)
               | IScopePtr p \<Rightarrow> Inr (p, w)
               | IOther v \<Rightarrow> Inl (TypeAssertion, w)) of
           Inl e \<Rightarrow> Inl e
         | Inr (None, w1) \<Rightarrow> Inl (NilDereference, w1)
         | Inr (Some a, w1) \<Rightarrow>
             Inr (WithValue (Context req) contextScopeName (IScopePtr (Some a)),
                  w1\<lparr>heap := (heap w1)(a := (heap w1 a)\<lparr>AccessDenied := True\<rparr>)\<rparr>))"

definition accessForbidden :: "oauthProxy \<Rightarrow> world \<Rightarrow> request \<Rightarrow> outcome" where
  "accessForbidden r w req =
     (let w1 = w\<lparr>resp := resp w @ [WriteHeader StatusForbidden]\<rparr>;
          w2 = (if hasCustomForbiddenPage r (config r)
                then (let name = path_Base (ForbiddenPage (config r));
                          (written, err) = Render r name (Tags (config r));
                          w' = w1\<lparr>resp := resp w1 @ written\<rparr>
                      in case err of
                           None \<Rightarrow> w'
                         | Some e \<Rightarrow> w'\<lparr>logs := logs w' @ [''failed to render the template'']\<rparr>)
                else w1)
      in revokeProxy r w2 req)"

definition redirectToURL :: "oauthProxy \<Rightarrow> string \<Rightarrow> world \<Rightarrow> request \<Rightarrow> outcome" where
  "redirectToURL r url w req =
     revokeProxy r (http_Redirect w req url StatusTemporaryRedirect) req"

definition generateStateParam :: "string \<Rightarrow> string" where
  "generateStateParam uri =
     (let state = PathParamPrefix @ uri
      in EncodeToString state)"

definition pathFromStateParam :: "string \<Rightarrow> string \<times> error option" where
  "pathFromStateParam state =
     (case DecodeString state of
        Inl err \<Rightarrow> ('''', Some err)
      | Inr decoded \<Rightarrow> (TrimPrefix decoded PathParamPrefix, None))"

text \<open>
  \<^verbatim>\<open>redirectToAuthorization\<close>: the context that \<^verbatim>\<open>redirectToURL\<close> returns is dropped,
  and \<^verbatim>\<open>revokeProxy\<close> runs once more on the request; a panic inside \<^verbatim>\<open>redirectToURL\<close>
  ends the call.
\<close>

definition redirectToAuthorization :: "oauthProxy \<Rightarrow> world \<Rightarrow> request \<Rightarrow> outcome" where
  "redirectToAuthorization r w req =
     (if NoRedirects (config r)
      then revokeProxy r (w\<lparr>resp := resp w @ [WriteHeader StatusUnauthorized]\<rparr>) req
      else let authQuery = ''?state='' @ generateStateParam (RequestURI req)
           in if SkipTokenVerification (config r)
              then revokeProxy r
                     (w\<lparr>logs := logs w @
                          [''refusing to redirection to authorization endpoint, skip token verification switched on''],
                        resp := resp w @ [WriteHeader StatusForbidden]\<rparr>) req
              else (case redirectToURL r (WithOAuthURI r (config r) (authorizationURL r @ authQuery)) w req of
                      Inl e \<Rightarrow> Inl e
                    | Inr (c, w1) \<Rightarrow> revokeProxy r w1 req))"

text \<open>\<^verbatim>\<open>getAccessCookieExpiration\<close>; the argument \<open>token\<close> is not used.\<close>

definition getAccessCookieExpiration :: "oauthProxy \<Rightarrow> Time \<Rightarrow> 'jwt \<Rightarrow> string \<Rightarrow> Duration" where
  "getAccessCookieExpiration r now token refresh =
     (let duration = AccessTokenDuration (config r)
      in case parseToken r refresh of
           Inr ident \<Rightarrow> time_Until now (ExpiresAt ident)
         | Inl err \<Rightarrow> duration)"

subsection \<open>The properties in the spec's words\<close>

text \<open>
  The spec calls a state token valid encoded text when it is written in the base
  alphabet and its length obeys the block rules of the encoding: without padding,
  a final block of a single character cannot occur.
\<close>

definition spec_valid_encoded_text :: "string \<Rightarrow> bool" where
  "spec_valid_encoded_text s = (list_all (\<lambda>c. c \<in> set encodeURL) s \<and> length s mod 4 \<noteq> 1)"

definition without_line_breaks :: "string \<Rightarrow> string" where
  "without_line_breaks s = filter (\<lambda>c. c \<noteq> CHR 0x0A \<and> c \<noteq> CHR 0x0D) s"

text \<open>The spec's censoring of one cookie under a list of names.\<close>

definition spec_censor :: "string list \<Rightarrow> cookie \<Rightarrow> cookie" where
  "spec_censor names x =
     (if Name x \<in> set names then \<lparr>Name = Name x, Value = ''censored''\<rparr> else x)"

text \<open>
  The scope key of a context is usable when nothing is stored under it or a
  non-nil \<^verbatim>\<open>*RequestScope\<close> is; a context is denied in a world when the scope it
  points to has \<^verbatim>\<open>AccessDenied\<close> set.
\<close>

definition scope_slot_ok :: "ctx \<Rightarrow> bool" where
  "scope_slot_ok c =
     (case c contextScopeName of
        INil \<Rightarrow> True
      | IScopePtr None \<Rightarrow> False
      | IScopePtr (Some a) \<Rightarrow> True
      | IOther v \<Rightarrow> False)"

definition panics :: "panic \<times> world + 'a \<Rightarrow> bool" where
  "panics res = (case res of Inl p \<Rightarrow> True | Inr v \<Rightarrow> False)"

definition world_of :: "outcome \<Rightarrow> world" where
  "world_of res = (case res of Inl (p, w) \<Rightarrow> w | Inr (c, w) \<Rightarrow> w)"

definition denied :: "world \<Rightarrow> ctx \<Rightarrow> bool" where
  "denied w c =
     (case c contextScopeName of
        IScopePtr (Some a) \<Rightarrow> AccessDenied (heap w a)
      | _ \<Rightarrow> False)"

text \<open>The target of the authorization redirect, as the spec writes it.\<close>

definition spec_authorization_target :: "oauthProxy \<Rightarrow> request \<Rightarrow> string" where
  "spec_authorization_target r req =
     WithOAuthURI r (config r) (authorizationURL r @ ''?state='' @ generateStateParam (RequestURI req))"

subsection \<open>Sample values\<close>

definition sampleConfig :: Config where
  "sampleConfig =
     \<lparr>AccessTokenDuration = 1800000000000, NoRedirects = False,
      SkipTokenVerification = False, ForbiddenPage = [], Tags = Map.empty\<rparr>"

definition sampleProxy :: "Config \<Rightarrow> oauthProxy" where
  "sampleProxy cfg =
     \<lparr>config = cfg,
      hasCustomForbiddenPage = (\<lambda>c. ForbiddenPage c \<noteq> []),
      WithOAuthURI = (\<lambda>c uri. ''https://proxy.example/oauth'' @ uri),
      authorizationURL = ''/authorize'',
      Render = (\<lambda>name tags. ([Write name], None)),
      parseToken = (\<lambda>t. if t = ''two-hours'' then Inr \<lparr>ExpiresAt = 7200000000000\<rparr>
                           else if t = ''far-future'' then Inr \<lparr>ExpiresAt = 10000000000000000000\<rparr>
                           else Inl ''malformed token'')\<rparr>"

text \<open>A proxy that joins its OAuth prefix and the path with a slash of its own.\<close>

definition slashProxy :: "Config \<Rightarrow> oauthProxy" where
  "slashProxy cfg = (sampleProxy cfg)\<lparr>WithOAuthURI := (\<lambda>c uri. ''/oauth'' @ ''/'' @ uri)\<rparr>"

definition sampleRequest :: request where
  "sampleRequest =
     \<lparr>Method = ''GET'', URL_Path = ''/secret'', RequestURI = ''/secret?x=1'',
      Cookies = [\<lparr>Name = ''a'', Value = ''1''\<rparr>, \<lparr>Name = ''b'', Value = ''2''\<rparr>,
                 \<lparr>Name = ''c'', Value = ''3''\<rparr>],
      Context = (\<lambda>k. INil)\<rparr>"

definition sampleWorld :: world where
  "sampleWorld =
     \<lparr>heap = (\<lambda>a. \<lparr>AccessDenied = False\<rparr>), fresh = 0, header = Map.empty,
      resp = [], logs = []\<rparr>"

subsection \<open>Proofs: the state token\<close>

lemma distinct_encodeURL: "distinct encodeURL"
  by (simp add: encodeURL_def)

lemma length_encodeURL: "length encodeURL = 64"
  by (simp add: encodeURL_def)

lemma decodeMap_enc: "v < 64 \<Longrightarrow> decodeMap (enc v) = Some v"
  unfolding decodeMap_def enc_def
  using map_of_zip_nth [of encodeURL "[0..<length encodeURL]" v]
  by (simp add: distinct_encodeURL length_encodeURL)

lemma and63: "(x::nat) AND 63 = take_bit 6 x"
  by (simp add: take_bit_eq_mask mask_eq_exp_minus_1)

lemma of_char_bit_ge8: "8 \<le> n \<Longrightarrow> \<not> bit (of_char c :: nat) n"
proof -
  assume "8 \<le> n"
  have "take_bit 8 (of_char c :: nat) = of_char c"
    by (simp add: take_bit_eq_mod)
  then have "bit (of_char c :: nat) n = bit (take_bit 8 (of_char c :: nat)) n" by simp
  also have "\<dots> = False" using \<open>8 \<le> n\<close> by (simp add: bit_take_bit_iff)
  finally show ?thesis by simp
qed

lemma of_char_bit_lt8: "bit (of_char c :: nat) n \<Longrightarrow> n < 8"
  using of_char_bit_ge8 [of n c] by (cases "n < 8") simp_all

lemma sextet_lt: "take_bit 6 (x::nat) < 64"
  using take_bit_nat_less_exp [of 6 x] by simp

lemma decodeMap_sextet: "decodeMap (enc (take_bit 6 x)) = Some (take_bit 6 x)"
  by (rule decodeMap_enc) (rule sextet_lt)

lemma regroup4:
  fixes val :: nat
  assumes hi: "\<And>n. bit val n \<Longrightarrow> n < 24"
  shows "push_bit 18 (take_bit 6 (drop_bit 18 val)) OR push_bit 12 (take_bit 6 (drop_bit 12 val))
           OR push_bit 6 (take_bit 6 (drop_bit 6 val)) OR take_bit 6 val = val"
proof (rule bit_eqI)
  fix n :: nat
  let ?l = "push_bit 18 (take_bit 6 (drop_bit 18 val)) OR push_bit 12 (take_bit 6 (drop_bit 12 val))
           OR push_bit 6 (take_bit 6 (drop_bit 6 val)) OR take_bit 6 val"
  consider "n < 6" | "6 \<le> n" "n < 12" | "12 \<le> n" "n < 18" | "18 \<le> n" "n < 24" | "24 \<le> n"
    by linarith
  then show "bit ?l n = bit val n"
  proof cases
    case 1 then show ?thesis by (simp add: bit_simps)
  next
    case 2
    then have "n - 6 < 6" by arith
    with 2 show ?thesis by (auto simp add: bit_simps)
  next
    case 3
    then have "n - 12 < 6" by arith
    with 3 show ?thesis by (auto simp add: bit_simps)
  next
    case 4
    then have "n - 18 < 6" by arith
    with 4 show ?thesis by (auto simp add: bit_simps)
  next
    case 5
    then have "\<not> bit val n" using hi [of n] by auto
    with 5 show ?thesis by (simp add: bit_simps)
  qed
qed

lemma regroup3:
  fixes val :: nat
  assumes hi: "\<And>n. bit val n \<Longrightarrow> 6 \<le> n \<and> n < 24"
  shows "push_bit 18 (take_bit 6 (drop_bit 18 val)) OR push_bit 12 (take_bit 6 (drop_bit 12 val))
           OR push_bit 6 (take_bit 6 (drop_bit 6 val)) = val"
proof -
  have "take_bit 6 val = 0"
  proof (rule bit_eqI)
    fix n :: nat
    show "bit (take_bit 6 val) n = bit (0::nat) n"
      using hi [of n] by (auto simp add: bit_simps)
  qed
  moreover have "\<And>n. bit val n \<Longrightarrow> n < 24" using hi by simp
  ultimately show ?thesis using regroup4 [of val] by simp
qed

lemma regroup2:
  fixes val :: nat
  assumes hi: "\<And>n. bit val n \<Longrightarrow> 12 \<le> n \<and> n < 24"
  shows "push_bit 18 (take_bit 6 (drop_bit 18 val)) OR push_bit 12 (take_bit 6 (drop_bit 12 val)) = val"
proof -
  have "take_bit 6 (drop_bit 6 val) = 0"
  proof (rule bit_eqI)
    fix n :: nat
    show "bit (take_bit 6 (drop_bit 6 val)) n = bit (0::nat) n"
      using hi [of "6 + n"] by (auto simp add: bit_simps)
  qed
  moreover have "\<And>n. bit val n \<Longrightarrow> 6 \<le> n \<and> n < 24" using hi by fastforce
  ultimately show ?thesis using regroup3 [of val] by simp
qed

lemma bits_val3:
  "bit (push_bit 16 (of_char a) OR push_bit 8 (of_char b) OR of_char c :: nat) n \<Longrightarrow> n < 24"
  by (auto simp add: bit_simps dest!: of_char_bit_lt8)

lemma bits_val2:
  "bit (push_bit 16 (of_char a) OR push_bit 8 (of_char b) :: nat) n \<Longrightarrow> 6 \<le> n \<and> n < 24"
  by (auto simp add: bit_simps dest!: of_char_bit_lt8)

lemma bits_val1:
  "bit (push_bit 16 (of_char a) :: nat) n \<Longrightarrow> 12 \<le> n \<and> n < 24"
  by (auto simp add: bit_simps dest!: of_char_bit_lt8)

lemma byte2: "char_of (drop_bit 16 (push_bit 16 (of_char a) OR r :: nat)) = a"
  if "\<And>n. bit r n \<Longrightarrow> n < 16" for r
proof -
  have "take_bit 8 (drop_bit 16 (push_bit 16 (of_char a) OR r)) = (of_char a :: nat)"
  proof (rule bit_eqI)
    fix n :: nat
    have "\<not> bit r (n + 16)" "\<not> bit r (16 + n)" using that [of "n + 16"] by (auto simp add: add.commute)
    then show "bit (take_bit 8 (drop_bit 16 (push_bit 16 (of_char a) OR r))) n = bit (of_char a :: nat) n"
      using of_char_bit_lt8 [of a n] by (auto simp add: bit_simps)
  qed
  then show ?thesis by (simp only: char_of_eq_iff)
qed

lemma byte1: "char_of (drop_bit 8 (push_bit 16 x OR push_bit 8 (of_char b) OR r :: nat)) = b"
  if "\<And>n. bit r n \<Longrightarrow> n < 8" for r
proof -
  have "take_bit 8 (drop_bit 8 (push_bit 16 x OR push_bit 8 (of_char b) OR r)) = (of_char b :: nat)"
  proof (rule bit_eqI)
    fix n :: nat
    have "\<not> bit r (n + 8)" "\<not> bit r (8 + n)" using that [of "n + 8"] by (auto simp add: add.commute)
    then show "bit (take_bit 8 (drop_bit 8 (push_bit 16 x OR push_bit 8 (of_char b) OR r))) n = bit (of_char b :: nat) n"
      using of_char_bit_lt8 [of b n] by (auto simp add: bit_simps)
  qed
  then show ?thesis by (simp only: char_of_eq_iff)
qed

lemma byte0: "char_of (push_bit 16 x OR push_bit 8 y OR of_char c :: nat) = c"
proof -
  have "take_bit 8 (push_bit 16 x OR push_bit 8 y OR of_char c) = (of_char c :: nat)"
  proof (rule bit_eqI)
    fix n :: nat
    show "bit (take_bit 8 (push_bit 16 x OR push_bit 8 y OR of_char c)) n = bit (of_char c :: nat) n"
      using of_char_bit_lt8 [of c n] by (auto simp add: bit_simps)
  qed
  then show ?thesis by (simp only: char_of_eq_iff)
qed

lemma quantum4:
  fixes a b c :: char
  defines "val \<equiv> push_bit 16 (of_char a) OR push_bit 8 (of_char b) OR of_char c :: nat"
  shows "quantum [take_bit 6 (drop_bit 18 val), take_bit 6 (drop_bit 12 val),
                  take_bit 6 (drop_bit 6 val), take_bit 6 val] = [a, b, c]"
proof -
  have "\<And>n. bit val n \<Longrightarrow> n < 24"
    unfolding val_def by (rule bits_val3)
  then have eq: "push_bit 18 (take_bit 6 (drop_bit 18 val)) OR push_bit 12 (take_bit 6 (drop_bit 12 val))
           OR push_bit 6 (take_bit 6 (drop_bit 6 val)) OR take_bit 6 val = val"
    by (rule regroup4)
  have r1: "\<And>n. bit (push_bit 8 (of_char b) OR of_char c :: nat) n \<Longrightarrow> n < 16"
    by (auto simp add: bit_simps dest!: of_char_bit_lt8)
  have r0: "\<And>n. bit (of_char c :: nat) n \<Longrightarrow> n < 8"
    by (rule of_char_bit_lt8)
  have "char_of (drop_bit 16 val) = a" unfolding val_def using r1 by (rule byte2)
  moreover have "char_of (drop_bit 8 val) = b" unfolding val_def using r0 by (rule byte1)
  moreover have "char_of val = c" unfolding val_def by (rule byte0)
  ultimately show ?thesis
    by (simp only: quantum.simps Let_def eq)
qed

lemma quantum3:
  fixes a b :: char
  defines "val \<equiv> push_bit 16 (of_char a) OR push_bit 8 (of_char b) :: nat"
  shows "quantum [take_bit 6 (drop_bit 18 val), take_bit 6 (drop_bit 12 val),
                  take_bit 6 (drop_bit 6 val)] = [a, b]"
proof -
  have "\<And>n. bit val n \<Longrightarrow> 6 \<le> n \<and> n < 24"
    unfolding val_def by (rule bits_val2)
  then have eq: "push_bit 18 (take_bit 6 (drop_bit 18 val)) OR push_bit 12 (take_bit 6 (drop_bit 12 val))
           OR push_bit 6 (take_bit 6 (drop_bit 6 val)) = val"
    by (rule regroup3)
  have r1: "\<And>n. bit (push_bit 8 (of_char b) :: nat) n \<Longrightarrow> n < 16"
    by (auto simp add: bit_simps dest!: of_char_bit_lt8)
  have "char_of (drop_bit 16 val) = a" unfolding val_def using r1 by (rule byte2)
  moreover have "char_of (drop_bit 8 (push_bit 16 (of_char a) OR push_bit 8 (of_char b) OR (0::nat))) = b"
    by (rule byte1) simp
  then have "char_of (drop_bit 8 val) = b" by (simp add: val_def)
  ultimately show ?thesis
    by (simp only: quantum.simps Let_def eq)
qed

lemma quantum2:
  fixes a :: char
  defines "val \<equiv> push_bit 16 (of_char a) :: nat"
  shows "quantum [take_bit 6 (drop_bit 18 val), take_bit 6 (drop_bit 12 val)] = [a]"
proof -
  have "\<And>n. bit val n \<Longrightarrow> 12 \<le> n \<and> n < 24"
    unfolding val_def by (rule bits_val1)
  then have eq: "push_bit 18 (take_bit 6 (drop_bit 18 val)) OR push_bit 12 (take_bit 6 (drop_bit 12 val)) = val"
    by (rule regroup2)
  have "char_of (drop_bit 16 (push_bit 16 (of_char a) OR (0::nat))) = a"
    by (rule byte2) simp
  then have "char_of (drop_bit 16 val) = a" by (simp add: val_def)
  then show ?thesis
    by (simp only: quantum.simps Let_def eq)
qed

lemma decode4:
  assumes "s0 < 64" "s1 < 64" "s2 < 64" "s3 < 64"
  shows "decodeLoop [] (enc s0 # enc s1 # enc s2 # enc s3 # rest) =
           (case decodeLoop [] rest of Inl e \<Rightarrow> Inl e | Inr r \<Rightarrow> Inr (quantum [s0, s1, s2, s3] @ r))"
  using assms by (simp add: decodeMap_enc del: quantum.simps cong: sum.case_cong)

lemma decode3:
  assumes "s0 < 64" "s1 < 64" "s2 < 64"
  shows "decodeLoop [] [enc s0, enc s1, enc s2] = Inr (quantum [s0, s1, s2])"
  using assms by (simp add: decodeMap_enc del: quantum.simps)

lemma decode2:
  assumes "s0 < 64" "s1 < 64"
  shows "decodeLoop [] [enc s0, enc s1] = Inr (quantum [s0, s1])"
  using assms by (simp add: decodeMap_enc del: quantum.simps)

lemma decodeLoop_Encode: "decodeLoop [] (EncodeToString bs) = Inr bs"
proof (induction bs rule: EncodeToString.induct)
  case (1 a b c src)
  define val where "val = (push_bit 16 (of_char a) OR push_bit 8 (of_char b) OR of_char c :: nat)"
  have E: "EncodeToString (a # b # c # src) =
          enc (take_bit 6 (drop_bit 18 val)) # enc (take_bit 6 (drop_bit 12 val)) #
          enc (take_bit 6 (drop_bit 6 val)) # enc (take_bit 6 val) # EncodeToString src"
    by (simp only: EncodeToString.simps Let_def and63 val_def)
  have Q: "quantum [take_bit 6 (drop_bit 18 val), take_bit 6 (drop_bit 12 val),
                  take_bit 6 (drop_bit 6 val), take_bit 6 val] = [a, b, c]"
    unfolding val_def by (rule quantum4)
  have "decodeLoop [] (EncodeToString (a # b # c # src)) =
          (case decodeLoop [] (EncodeToString src) of Inl e \<Rightarrow> Inl e
           | Inr r \<Rightarrow> Inr (quantum [take_bit 6 (drop_bit 18 val), take_bit 6 (drop_bit 12 val),
                  take_bit 6 (drop_bit 6 val), take_bit 6 val] @ r))"
    unfolding E by (rule decode4) (rule sextet_lt)+
  also have "\<dots> = Inr ([a, b, c] @ src)"
    by (simp only: "1.IH" Q sum.case)
  finally show ?case by simp
next
  case (2 a b)
  define val where "val = (push_bit 16 (of_char a) OR push_bit 8 (of_char b) :: nat)"
  have E: "EncodeToString [a, b] =
          [enc (take_bit 6 (drop_bit 18 val)), enc (take_bit 6 (drop_bit 12 val)),
           enc (take_bit 6 (drop_bit 6 val))]"
    by (simp only: EncodeToString.simps Let_def and63 val_def)
  have Q: "quantum [take_bit 6 (drop_bit 18 val), take_bit 6 (drop_bit 12 val),
                  take_bit 6 (drop_bit 6 val)] = [a, b]"
    unfolding val_def by (rule quantum3)
  have "decodeLoop [] (EncodeToString [a, b]) =
          Inr (quantum [take_bit 6 (drop_bit 18 val), take_bit 6 (drop_bit 12 val),
                  take_bit 6 (drop_bit 6 val)])"
    unfolding E by (rule decode3) (rule sextet_lt)+
  then show ?case by (simp only: Q)
next
  case (3 a)
  define val where "val = (push_bit 16 (of_char a) :: nat)"
  have E: "EncodeToString [a] =
          [enc (take_bit 6 (drop_bit 18 val)), enc (take_bit 6 (drop_bit 12 val))]"
    by (simp only: EncodeToString.simps Let_def and63 val_def)
  have Q: "quantum [take_bit 6 (drop_bit 18 val), take_bit 6 (drop_bit 12 val)] = [a]"
    unfolding val_def by (rule quantum2)
  have "decodeLoop [] (EncodeToString [a]) =
          Inr (quantum [take_bit 6 (drop_bit 18 val), take_bit 6 (drop_bit 12 val)])"
    unfolding E by (rule decode2) (rule sextet_lt)+
  then show ?case by (simp only: Q)
next
  case 4
  then show ?case by simp
qed

lemma DecodeString_EncodeToString: "DecodeString (EncodeToString bs) = Inr bs"
  by (simp add: DecodeString_def decodeLoop_Encode)

lemma TrimPrefix_append: "TrimPrefix (pre @ s) pre = s"
  by (simp add: TrimPrefix_def HasPrefix_def)

text \<open>
  C1: for every string \<open>p\<close> (empty, of any bytes, with a query or not), decoding the
  state token that encodes \<open>p\<close> returns \<open>p\<close> and no error.
\<close>

theorem state_param_round_trip:
  "pathFromStateParam (generateStateParam p) = (p, None)"
  by (simp add: pathFromStateParam_def generateStateParam_def
      DecodeString_EncodeToString TrimPrefix_append)

subsection \<open>Proofs: decoding a state token\<close>

lemma decodeMap_None_iff: "decodeMap c = None \<longleftrightarrow> c \<notin> set encodeURL"
proof -
  have "dom (map_of (zip encodeURL [0..<length encodeURL])) = set encodeURL"
    by (rule dom_map_of_zip) simp
  then show ?thesis
    unfolding decodeMap_def by (metis domIff)
qed

lemma newline_not_in_alphabet: "CHR 0x0A \<notin> set encodeURL" "CHR 0x0D \<notin> set encodeURL"
  by (simp_all add: encodeURL_def)

lemma wlb_skip: "c = CHR 0x0A \<or> c = CHR 0x0D \<Longrightarrow> without_line_breaks (c # src) = without_line_breaks src"
  by (auto simp add: without_line_breaks_def)

lemma wlb_keep: "c \<noteq> CHR 0x0A \<Longrightarrow> c \<noteq> CHR 0x0D \<Longrightarrow> without_line_breaks (c # src) = c # without_line_breaks src"
  by (simp add: without_line_breaks_def)

lemma decodeLoop_error_iff:
  "length dbuf < 4 \<Longrightarrow>
   isl (decodeLoop dbuf s) \<longleftrightarrow>
     (\<not> list_all (\<lambda>c. c \<in> set encodeURL) (without_line_breaks s)
      \<or> (length dbuf + length (without_line_breaks s)) mod 4 = 1)"
proof (induction s arbitrary: dbuf)
  case Nil
  then have "length dbuf = 0 \<or> length dbuf = 1 \<or> length dbuf = 2 \<or> length dbuf = 3" by arith
  then show ?case
    by (auto simp add: without_line_breaks_def)
next
  case (Cons c src)
  show ?case
  proof (cases "decodeMap c")
    case None
    then have out: "c \<notin> set encodeURL" by (simp add: decodeMap_None_iff)
    show ?thesis
    proof (cases "c = CHR 0x0A \<or> c = CHR 0x0D")
      case True
      have "isl (decodeLoop dbuf (c # src)) = isl (decodeLoop dbuf src)"
        using None True by simp
      also have "\<dots> = (\<not> list_all (\<lambda>c. c \<in> set encodeURL) (without_line_breaks src)
            \<or> (length dbuf + length (without_line_breaks src)) mod 4 = 1)"
        using Cons.prems by (rule Cons.IH)
      finally show ?thesis by (simp only: wlb_skip [OF True])
    next
      case False
      then have w: "without_line_breaks (c # src) = c # without_line_breaks src"
        by (simp add: wlb_keep)
      have "isl (decodeLoop dbuf (c # src))" using None False by simp
      then show ?thesis using out by (simp add: w)
    qed
  next
    case (Some out)
    then have inA: "c \<in> set encodeURL"
      using decodeMap_None_iff [of c] by auto
    then have "c \<noteq> CHR 0x0A" "c \<noteq> CHR 0x0D"
      using newline_not_in_alphabet by auto
    then have w: "without_line_breaks (c # src) = c # without_line_breaks src"
      by (rule wlb_keep)
    show ?thesis
    proof (cases "length dbuf = 3")
      case True
      have "isl (decodeLoop dbuf (c # src)) = isl (decodeLoop [] src)"
        using Some True by (simp split: sum.splits)
      also have "\<dots> = (\<not> list_all (\<lambda>c. c \<in> set encodeURL) (without_line_breaks src)
            \<or> (length ([]::nat list) + length (without_line_breaks src)) mod 4 = 1)"
        by (rule Cons.IH) simp
      also have "\<dots> = (\<not> list_all (\<lambda>c. c \<in> set encodeURL) (without_line_breaks (c # src))
            \<or> (length dbuf + length (without_line_breaks (c # src))) mod 4 = 1)"
        unfolding w True using inA by simp
      finally show ?thesis .
    next
      case False
      with Cons.prems have l: "length (dbuf @ [out]) < 4" by simp
      have "isl (decodeLoop dbuf (c # src)) = isl (decodeLoop (dbuf @ [out]) src)"
        using Some False by simp
      also have "\<dots> = (\<not> list_all (\<lambda>c. c \<in> set encodeURL) (without_line_breaks src)
            \<or> (length (dbuf @ [out]) + length (without_line_breaks src)) mod 4 = 1)"
        using l by (rule Cons.IH)
      also have "\<dots> = (\<not> list_all (\<lambda>c. c \<in> set encodeURL) (without_line_breaks (c # src))
            \<or> (length dbuf + length (without_line_breaks (c # src))) mod 4 = 1)"
        unfolding w using inA by simp
      finally show ?thesis .
    qed
  qed
qed

lemma pathFromStateParam_error_iff:
  "snd (pathFromStateParam s) \<noteq> None \<longleftrightarrow> \<not> spec_valid_encoded_text (without_line_breaks s)"
proof -
  have "snd (pathFromStateParam s) \<noteq> None \<longleftrightarrow> isl (decodeLoop [] s)"
    by (simp add: pathFromStateParam_def DecodeString_def split: sum.splits)
  also have "\<dots> \<longleftrightarrow> (\<not> list_all (\<lambda>c. c \<in> set encodeURL) (without_line_breaks s)
      \<or> (length ([]::nat list) + length (without_line_breaks s)) mod 4 = 1)"
    by (rule decodeLoop_error_iff) simp
  finally show ?thesis by (simp add: spec_valid_encoded_text_def)
qed

lemma TrimPrefix_PathParamPrefix:
  "TrimPrefix d PathParamPrefix = (if take 6 d = '':path:'' then drop 6 d else d)"
proof -
  have len: "length PathParamPrefix = 6" by (simp add: PathParamPrefix_def)
  have "6 \<le> length d" if "take 6 d = PathParamPrefix"
  proof -
    from that have "length (take 6 d) = 6" using len by simp
    then show ?thesis by simp
  qed
  then have "HasPrefix d PathParamPrefix \<longleftrightarrow> take 6 d = PathParamPrefix"
    unfolding HasPrefix_def len by blast
  then show ?thesis
    unfolding TrimPrefix_def len by (simp add: PathParamPrefix_def)
qed

text \<open>
  C6 (amended): \<^verbatim>\<open>pathFromStateParam\<close> returns an error exactly when its input,
  with every carriage return and line feed removed, is not valid unpadded URL-safe
  base64 text; on an error it returns the empty string; on every successful decode
  it strips the prefix \<^verbatim>\<open>:path:\<close> from the decoded bytes when they start with it and
  returns them unchanged otherwise.
\<close>

theorem pathFromStateParam_decodes:
  "(snd (pathFromStateParam s) \<noteq> None \<longleftrightarrow> \<not> spec_valid_encoded_text (without_line_breaks s))
   \<and> (\<forall>err. DecodeString s = Inl err \<longrightarrow> pathFromStateParam s = ([], Some err))
   \<and> (\<forall>decoded. DecodeString s = Inr decoded \<longrightarrow>
         pathFromStateParam s =
           (if take 6 decoded = '':path:'' then drop 6 decoded else decoded, None))"
proof (intro conjI allI impI)
  show "snd (pathFromStateParam s) \<noteq> None \<longleftrightarrow> \<not> spec_valid_encoded_text (without_line_breaks s)"
    by (rule pathFromStateParam_error_iff)
next
  fix err assume "DecodeString s = Inl err"
  then show "pathFromStateParam s = ([], Some err)"
    by (simp add: pathFromStateParam_def)
next
  fix decoded assume "DecodeString s = Inr decoded"
  then show "pathFromStateParam s =
           (if take 6 decoded = '':path:'' then drop 6 decoded else decoded, None)"
    by (simp add: pathFromStateParam_def TrimPrefix_PathParamPrefix)
qed

lemma isl_error: "isl (x :: error + 'a) \<Longrightarrow> x = Inl CorruptInputError"
  by (cases x) (simp_all, metis error.exhaust)

lemma decodeMap_Q: "decodeMap CHR ''Q'' = Some 16"
  using decodeMap_enc [of 16] by (simp add: enc_def encodeURL_def)

lemma decodeMap_LF: "decodeMap CHR 0x0A = None"
  by (simp add: decodeMap_None_iff encodeURL_def)

theorem pathFromStateParam_decodes_witness:
  "spec_valid_encoded_text (without_line_breaks ''OnBhdGg6L3g'')
   \<and> DecodeString ''OnBhdGg6L3g'' = Inr '':path:/x''
   \<and> pathFromStateParam ''OnBhdGg6L3g'' = (''/x'', None)
   \<and> spec_valid_encoded_text (without_line_breaks ''YWJj'')
   \<and> DecodeString ''YWJj'' = Inr ''abc''
   \<and> pathFromStateParam ''YWJj'' = (''abc'', None)
   \<and> \<not> spec_valid_encoded_text (without_line_breaks ''not-valid-base64!!'')
   \<and> DecodeString ''not-valid-base64!!'' = Inl CorruptInputError
   \<and> pathFromStateParam ''not-valid-base64!!'' = ([], Some CorruptInputError)"
proof -
  have v1: "spec_valid_encoded_text (without_line_breaks ''OnBhdGg6L3g'')"
    by (simp add: spec_valid_encoded_text_def without_line_breaks_def encodeURL_def)
  have "EncodeToString '':path:/x'' = ''OnBhdGg6L3g''"
    by (simp add: enc_def encodeURL_def)
  then have d1: "DecodeString ''OnBhdGg6L3g'' = Inr '':path:/x''"
    using DecodeString_EncodeToString [of "'':path:/x''"] by simp
  have v2: "spec_valid_encoded_text (without_line_breaks ''YWJj'')"
    by (simp add: spec_valid_encoded_text_def without_line_breaks_def encodeURL_def)
  have "EncodeToString ''abc'' = ''YWJj''"
    by (simp add: enc_def encodeURL_def)
  then have d2: "DecodeString ''YWJj'' = Inr ''abc''"
    using DecodeString_EncodeToString [of "''abc''"] by simp
  have v3: "\<not> spec_valid_encoded_text (without_line_breaks ''not-valid-base64!!'')"
    by (simp add: spec_valid_encoded_text_def without_line_breaks_def encodeURL_def)
  from pathFromStateParam_decodes [of "''not-valid-base64!!''"] v3
  have "snd (pathFromStateParam ''not-valid-base64!!'') \<noteq> None" by blast
  then have "isl (DecodeString ''not-valid-base64!!'')"
    by (simp add: pathFromStateParam_def split: sum.splits)
  then have d3: "DecodeString ''not-valid-base64!!'' = Inl CorruptInputError"
    by (rule isl_error)
  from pathFromStateParam_decodes [of "''OnBhdGg6L3g''"] d1
  have "pathFromStateParam ''OnBhdGg6L3g'' =
          (if take 6 '':path:/x'' = '':path:'' then drop 6 '':path:/x'' else '':path:/x'', None)"
    by blast
  then have p1: "pathFromStateParam ''OnBhdGg6L3g'' = (''/x'', None)" by simp
  from pathFromStateParam_decodes [of "''YWJj''"] d2
  have "pathFromStateParam ''YWJj'' =
          (if take 6 ''abc'' = '':path:'' then drop 6 ''abc'' else ''abc'', None)"
    by blast
  then have p2: "pathFromStateParam ''YWJj'' = (''abc'', None)" by simp
  from pathFromStateParam_decodes [of "''not-valid-base64!!''"] d3
  have p3: "pathFromStateParam ''not-valid-base64!!'' = ([], Some CorruptInputError)"
    by blast
  from v1 d1 p1 v2 d2 p2 v3 d3 p3 show ?thesis by blast
qed

theorem state_text_with_line_break_counterexample:
  "pathFromStateParam (''QQ'' @ [CHR 0x0A]) = (''A'', None)
   \<and> \<not> spec_valid_encoded_text (''QQ'' @ [CHR 0x0A])"
proof -
  have "DecodeString (''QQ'' @ [CHR 0x0A]) = Inr ''A''"
    by (simp add: DecodeString_def decodeMap_Q decodeMap_LF char_of_eq_iff)
  then have "pathFromStateParam (''QQ'' @ [CHR 0x0A]) = (''A'', None)"
    by (simp add: pathFromStateParam_def TrimPrefix_PathParamPrefix)
  moreover have "\<not> spec_valid_encoded_text (''QQ'' @ [CHR 0x0A])"
    by (simp add: spec_valid_encoded_text_def encodeURL_def)
  ultimately show ?thesis by blast
qed

subsection \<open>Proofs: the cookies\<close>

lemma filterCookies_match_eq:
  "filterCookies_match req x flt =
     (if Name x \<in> set flt
      then (AddCookie req \<lparr>Name = Name x, Value = ''censored''\<rparr>, True)
      else (req, False))"
  by (induction flt) auto

lemma filterCookies_loop_eq:
  "filterCookies_loop req cookies flt =
     req\<lparr>Cookies := Cookies req @ map (spec_censor flt) cookies\<rparr>"
proof (induction cookies arbitrary: req)
  case Nil
  then show ?case by simp
next
  case (Cons x cookies)
  show ?case
    by (simp add: Cons.IH filterCookies_match_eq AddCookie_def spec_censor_def)
qed

text \<open>
  C7: \<^verbatim>\<open>filterCookies\<close> returns nil and leaves the request with the same cookies in
  the same order, each cookie whose name is in the filter list carrying the value
  \<^verbatim>\<open>censored\<close> and every other cookie its own name and value.
\<close>

theorem filterCookies_censors:
  "filterCookies req flt = (None, req\<lparr>Cookies := map (spec_censor flt) (Cookies req)\<rparr>)"
  by (simp add: filterCookies_def filterCookies_loop_eq Header_Set_Cookie_empty_def)

theorem filterCookies_censors_witness:
  "filterCookies sampleRequest [''b''] =
     (None, sampleRequest\<lparr>Cookies := [\<lparr>Name = ''a'', Value = ''1''\<rparr>,
        \<lparr>Name = ''b'', Value = ''censored''\<rparr>, \<lparr>Name = ''c'', Value = ''3''\<rparr>]\<rparr>)"
  using filterCookies_censors [of sampleRequest "[''b'']"]
  by (simp add: sampleRequest_def spec_censor_def)

subsection \<open>Proofs: the cookie lifetime\<close>

lemma time_Sub_clamp: "time_Sub t u = max minDuration (min maxDuration (t - u))"
  by (simp add: time_Sub_def Let_def minDuration_def maxDuration_def)

text \<open>
  C8 (amended): \<^verbatim>\<open>getAccessCookieExpiration\<close> returns the configured
  \<^verbatim>\<open>AccessTokenDuration\<close> when \<^verbatim>\<open>parseToken\<close> fails and otherwise the time until
  \<^verbatim>\<open>ExpiresAt\<close> as a \<^verbatim>\<open>Duration\<close>: \<open>ExpiresAt - now\<close> when that fits 64 bits of
  nanoseconds (negative when already expired), and the nearest \<^verbatim>\<open>Duration\<close> otherwise.
\<close>

theorem getAccessCookieExpiration_value:
  "getAccessCookieExpiration r now token refresh =
     (case parseToken r refresh of
        Inl err \<Rightarrow> AccessTokenDuration (config r)
      | Inr ident \<Rightarrow> max minDuration (min maxDuration (ExpiresAt ident - now)))
   \<and> (\<forall>ident. parseToken r refresh = Inr ident
          \<and> - (2 ^ 63) \<le> ExpiresAt ident - now \<and> ExpiresAt ident - now \<le> 2 ^ 63 - 1
        \<longrightarrow> getAccessCookieExpiration r now token refresh = ExpiresAt ident - now)"
  by (auto simp add: getAccessCookieExpiration_def time_Until_def time_Sub_clamp
      minDuration_def maxDuration_def split: sum.splits)

theorem getAccessCookieExpiration_value_witness:
  "parseToken (sampleProxy sampleConfig) [] = Inl ''malformed token''
   \<and> getAccessCookieExpiration (sampleProxy sampleConfig) 0 () [] = 1800000000000
   \<and> parseToken (sampleProxy sampleConfig) ''two-hours'' = Inr \<lparr>ExpiresAt = 7200000000000\<rparr>
   \<and> getAccessCookieExpiration (sampleProxy sampleConfig) 0 () ''two-hours'' = 7200000000000
   \<and> getAccessCookieExpiration (sampleProxy sampleConfig) 9000000000000 () ''two-hours''
       = - 1800000000000"
proof -
  have p0: "parseToken (sampleProxy sampleConfig) [] = Inl ''malformed token''"
    by (simp add: sampleProxy_def)
  have p1: "parseToken (sampleProxy sampleConfig) ''two-hours'' = Inr \<lparr>ExpiresAt = 7200000000000\<rparr>"
    by (simp add: sampleProxy_def)
  have c: "AccessTokenDuration (config (sampleProxy sampleConfig)) = 1800000000000"
    by (simp add: sampleProxy_def sampleConfig_def)
  from getAccessCookieExpiration_value [of "sampleProxy sampleConfig" 0 "()" "[]"] p0 c
  have r0: "getAccessCookieExpiration (sampleProxy sampleConfig) 0 () [] = 1800000000000"
    by simp
  from getAccessCookieExpiration_value [of "sampleProxy sampleConfig" 0 "()" "''two-hours''"] p1
  have r1: "getAccessCookieExpiration (sampleProxy sampleConfig) 0 () ''two-hours'' = 7200000000000"
    by simp
  from getAccessCookieExpiration_value
         [of "sampleProxy sampleConfig" 9000000000000 "()" "''two-hours''"] p1
  have r2: "getAccessCookieExpiration (sampleProxy sampleConfig) 9000000000000 () ''two-hours''
       = - 1800000000000"
    by simp
  from p0 r0 p1 r1 r2 show ?thesis by blast
qed

theorem expiry_beyond_Duration_counterexample:
  "parseToken (sampleProxy sampleConfig) ''far-future'' = Inr \<lparr>ExpiresAt = 10000000000000000000\<rparr>
   \<and> getAccessCookieExpiration (sampleProxy sampleConfig) 0 () ''far-future''
       = 9223372036854775807
   \<and> getAccessCookieExpiration (sampleProxy sampleConfig) 0 () ''far-future''
       \<noteq> 10000000000000000000 - 0"
  by (simp add: getAccessCookieExpiration_def time_Until_def time_Sub_def
      minDuration_def maxDuration_def sampleProxy_def)

subsection \<open>Proofs: the dispositions\<close>

lemma panics_isl: "panics res = isl res"
  by (cases res) (simp_all add: panics_def)

lemma revokeProxy_returns:
  assumes "scope_slot_ok (Context req)"
  shows "\<exists>c w'. revokeProxy r w req = Inr (c, w') \<and> denied w' c
           \<and> (\<forall>a. AccessDenied (heap w a) \<longrightarrow> AccessDenied (heap w' a))
           \<and> resp w' = resp w \<and> logs w' = logs w \<and> header w' = header w"
proof (cases "Context req contextScopeName")
  case INil
  then show ?thesis
    by (simp add: revokeProxy_def denied_def WithValue_def)
next
  case (IScopePtr p)
  with assms obtain a where "p = Some a"
    by (cases p) (simp_all add: scope_slot_ok_def)
  with IScopePtr show ?thesis
    by (simp add: revokeProxy_def denied_def WithValue_def)
next
  case (IOther v)
  with assms show ?thesis by (simp add: scope_slot_ok_def)
qed

lemma revokeProxy_panic:
  assumes "\<not> scope_slot_ok (Context req)"
  shows "\<exists>p. revokeProxy r w req = Inl (p, w)"
proof (cases "Context req contextScopeName")
  case INil
  with assms show ?thesis by (simp add: scope_slot_ok_def)
next
  case (IScopePtr p)
  with assms have "p = None"
    by (cases p) (simp_all add: scope_slot_ok_def)
  with IScopePtr show ?thesis by (simp add: revokeProxy_def)
next
  case (IOther v)
  then show ?thesis by (simp add: revokeProxy_def)
qed

lemma revokeProxy_panics_iff:
  "isl (revokeProxy r w req) \<longleftrightarrow> \<not> scope_slot_ok (Context req)"
proof (cases "scope_slot_ok (Context req)")
  case True
  from revokeProxy_returns [OF True, of r w] show ?thesis using True by auto
next
  case False
  from revokeProxy_panic [OF False, of r w] show ?thesis using False by auto
qed

lemma revokeProxy_world:
  "resp (world_of (revokeProxy r w req)) = resp w
   \<and> logs (world_of (revokeProxy r w req)) = logs w
   \<and> header (world_of (revokeProxy r w req)) = header w
   \<and> (\<forall>a. AccessDenied (heap w a) \<longrightarrow> AccessDenied (heap (world_of (revokeProxy r w req)) a))"
proof (cases "scope_slot_ok (Context req)")
  case True
  from revokeProxy_returns [OF True, of r w] show ?thesis
    by (auto simp add: world_of_def)
next
  case False
  from revokeProxy_panic [OF False, of r w] show ?thesis
    by (auto simp add: world_of_def)
qed

text \<open>What a call of \<open>revokeProxy\<close> in a changed world gives, in one statement.\<close>

lemma revokeProxy_outcome:
  "(scope_slot_ok (Context req) \<longrightarrow>
      (\<exists>c w'. revokeProxy r w req = Inr (c, w') \<and> denied w' c))
   \<and> (\<not> scope_slot_ok (Context req) \<longrightarrow> panics (revokeProxy r w req))"
proof (cases "scope_slot_ok (Context req)")
  case True
  from revokeProxy_returns [OF True, of r w] show ?thesis using True by blast
next
  case False
  then show ?thesis by (simp add: panics_isl revokeProxy_panics_iff)
qed

lemma accessForbidden_world:
  "\<exists>evs lg. accessForbidden r w req =
      revokeProxy r (w\<lparr>resp := resp w @ WriteHeader 403 # evs, logs := logs w @ lg\<rparr>) req"
proof (cases "hasCustomForbiddenPage r (config r)")
  case False
  then have "accessForbidden r w req =
      revokeProxy r (w\<lparr>resp := resp w @ WriteHeader 403 # [], logs := logs w @ []\<rparr>) req"
    by (simp add: accessForbidden_def StatusForbidden_def)
  then show ?thesis by blast
next
  case True
  obtain written err where rd: "Render r (path_Base (ForbiddenPage (config r))) (Tags (config r)) = (written, err)"
    by (cases "Render r (path_Base (ForbiddenPage (config r))) (Tags (config r))")
  show ?thesis
  proof (cases err)
    case None
    with True rd have "accessForbidden r w req =
        revokeProxy r (w\<lparr>resp := resp w @ WriteHeader 403 # written, logs := logs w @ []\<rparr>) req"
      by (simp add: accessForbidden_def StatusForbidden_def)
    then show ?thesis by blast
  next
    case (Some e)
    with True rd have "accessForbidden r w req =
        revokeProxy r (w\<lparr>resp := resp w @ WriteHeader 403 # written,
          logs := logs w @ [''failed to render the template'']\<rparr>) req"
      by (simp add: accessForbidden_def StatusForbidden_def)
    then show ?thesis by blast
  qed
qed

lemma http_Redirect_heap: "heap (http_Redirect w req url code) = heap w"
  by (simp add: http_Redirect_def Let_def)

lemma http_Redirect_logs: "logs (http_Redirect w req url code) = logs w"
  by (simp add: http_Redirect_def Let_def)

lemma http_Redirect_Location:
  "header (http_Redirect w req url code) ''Location'' = Some [hexEscapeNonASCII (redirectTarget req url)]"
  by (simp add: http_Redirect_def Let_def)

lemma http_Redirect_Content_Type:
  "header (http_Redirect w req url code) ''Content-Type'' =
     (if header w ''Content-Type'' = None \<and> (Method req = ''GET'' \<or> Method req = ''HEAD'')
      then Some [''text/html; charset=utf-8''] else header w ''Content-Type'')"
  by (simp add: http_Redirect_def Let_def)

lemma http_Redirect_resp:
  "resp (http_Redirect w req url code) =
     resp w @ WriteHeader code #
       (if header w ''Content-Type'' = None \<and> Method req = ''GET''
        then [Write (redirectBody (redirectTarget req url) code)] else [])"
  by (simp add: http_Redirect_def Let_def)

lemma hexEscapeNonASCII_ascii:
  "list_all (\<lambda>c. (of_char c :: nat) < 128) s \<Longrightarrow> hexEscapeNonASCII s = s"
  by (induction s) simp_all

lemma rta_NoRedirects_branch:
  "NoRedirects (config r) \<Longrightarrow>
   redirectToAuthorization r w req = revokeProxy r (w\<lparr>resp := resp w @ [WriteHeader 401]\<rparr>) req"
  by (simp add: redirectToAuthorization_def StatusUnauthorized_def)

lemma rta_SkipTokenVerification_branch:
  "\<not> NoRedirects (config r) \<Longrightarrow> SkipTokenVerification (config r) \<Longrightarrow>
   redirectToAuthorization r w req =
     revokeProxy r
       (w\<lparr>logs := logs w @
            [''refusing to redirection to authorization endpoint, skip token verification switched on''],
          resp := resp w @ [WriteHeader 403]\<rparr>) req"
  by (simp add: redirectToAuthorization_def StatusForbidden_def)

lemma rta_redirect_branch:
  "\<not> NoRedirects (config r) \<Longrightarrow> \<not> SkipTokenVerification (config r) \<Longrightarrow>
   redirectToAuthorization r w req =
     (case revokeProxy r (http_Redirect w req (spec_authorization_target r req) 307) req of
        Inl e \<Rightarrow> Inl e
      | Inr (c, w1) \<Rightarrow> revokeProxy r w1 req)"
  by (simp add: redirectToAuthorization_def redirectToURL_def spec_authorization_target_def
      StatusTemporaryRedirect_def)

text \<open>In the redirect branch the second \<open>revokeProxy\<close> changes nothing but the heap.\<close>

lemma rta_redirect_world:
  assumes "\<not> NoRedirects (config r)" and "\<not> SkipTokenVerification (config r)"
  shows "resp (world_of (redirectToAuthorization r w req))
           = resp (http_Redirect w req (spec_authorization_target r req) 307)
         \<and> header (world_of (redirectToAuthorization r w req))
           = header (http_Redirect w req (spec_authorization_target r req) 307)
         \<and> logs (world_of (redirectToAuthorization r w req)) = logs w
         \<and> (\<forall>a. AccessDenied (heap w a) \<longrightarrow>
                 AccessDenied (heap (world_of (redirectToAuthorization r w req)) a))
         \<and> (scope_slot_ok (Context req) \<longrightarrow>
              (\<exists>c w'. redirectToAuthorization r w req = Inr (c, w') \<and> denied w' c))
         \<and> (\<not> scope_slot_ok (Context req) \<longrightarrow> panics (redirectToAuthorization r w req))"
proof (cases "scope_slot_ok (Context req)")
  case True
  let ?w0 = "http_Redirect w req (spec_authorization_target r req) 307"
  from revokeProxy_returns [OF True, of r ?w0]
  obtain c1 w1 where 1: "revokeProxy r ?w0 req = Inr (c1, w1)"
    and h1: "\<forall>a. AccessDenied (heap ?w0 a) \<longrightarrow> AccessDenied (heap w1 a)"
    and r1: "resp w1 = resp ?w0" "logs w1 = logs ?w0" "header w1 = header ?w0"
    by auto
  from revokeProxy_returns [OF True, of r w1]
  obtain c2 w2 where 2: "revokeProxy r w1 req = Inr (c2, w2)" and d2: "denied w2 c2"
    and h2: "\<forall>a. AccessDenied (heap w1 a) \<longrightarrow> AccessDenied (heap w2 a)"
    and r2: "resp w2 = resp w1" "logs w2 = logs w1" "header w2 = header w1"
    by auto
  from assms 1 2 have e: "redirectToAuthorization r w req = Inr (c2, w2)"
    by (simp add: rta_redirect_branch)
  then have "world_of (redirectToAuthorization r w req) = w2"
    by (simp add: world_of_def)
  with e d2 h1 h2 r1 r2 True show ?thesis
    by (simp add: http_Redirect_heap http_Redirect_logs)
next
  case False
  let ?w0 = "http_Redirect w req (spec_authorization_target r req) 307"
  from revokeProxy_panic [OF False, of r ?w0]
  obtain p where 1: "revokeProxy r ?w0 req = Inl (p, ?w0)" by blast
  with assms have e: "redirectToAuthorization r w req = Inl (p, ?w0)"
    by (simp add: rta_redirect_branch)
  then have "world_of (redirectToAuthorization r w req) = ?w0"
    by (simp add: world_of_def)
  with e False show ?thesis
    by (simp add: http_Redirect_heap http_Redirect_logs panics_def)
qed

lemma rta_outcome:
  "(scope_slot_ok (Context req) \<longrightarrow>
      (\<exists>c w'. redirectToAuthorization r w req = Inr (c, w') \<and> denied w' c))
   \<and> (\<not> scope_slot_ok (Context req) \<longrightarrow> panics (redirectToAuthorization r w req))
   \<and> (\<forall>a. AccessDenied (heap w a) \<longrightarrow>
           AccessDenied (heap (world_of (redirectToAuthorization r w req)) a))"
proof (cases "NoRedirects (config r)")
  case True
  let ?w0 = "w\<lparr>resp := resp w @ [WriteHeader 401]\<rparr>"
  from True revokeProxy_outcome [of req r ?w0] revokeProxy_world [of r ?w0 req]
  show ?thesis by (simp add: rta_NoRedirects_branch)
next
  case nr: False
  show ?thesis
  proof (cases "SkipTokenVerification (config r)")
    case True
    let ?w0 = "w\<lparr>logs := logs w @
            [''refusing to redirection to authorization endpoint, skip token verification switched on''],
          resp := resp w @ [WriteHeader 403]\<rparr>"
    from nr True revokeProxy_outcome [of req r ?w0] revokeProxy_world [of r ?w0 req]
    show ?thesis by (simp add: rta_SkipTokenVerification_branch)
  next
    case False
    from rta_redirect_world [OF nr False, of w req] show ?thesis by blast
  qed
qed

lemma sample_slot_ok: "scope_slot_ok (Context sampleRequest)"
  by (simp add: scope_slot_ok_def sampleRequest_def)

lemma other_slot_not_ok:
  "\<not> scope_slot_ok (Context (sampleRequest\<lparr>Context := (Context sampleRequest)(contextScopeName := IOther ''user'')\<rparr>))"
  by (simp add: scope_slot_ok_def)

lemma nil_pointer_slot_not_ok:
  "\<not> scope_slot_ok (Context (sampleRequest\<lparr>Context := (Context sampleRequest)(contextScopeName := IScopePtr None)\<rparr>))"
  by (simp add: scope_slot_ok_def)

text \<open>
  C3 (amended): on every request whose context holds nothing or a non-nil pointer
  to a scope under the scope key, every disposition returns a context whose scope
  has AccessDenied set; on any other request it panics and returns no context. On
  every request, no scope that had AccessDenied set loses it.
\<close>

theorem dispositions_deny:
  "(scope_slot_ok (Context req) \<longrightarrow>
       (\<exists>c w'. revokeProxy r w req = Inr (c, w') \<and> denied w' c)
     \<and> (\<exists>c w'. accessForbidden r w req = Inr (c, w') \<and> denied w' c)
     \<and> (\<exists>c w'. redirectToURL r url w req = Inr (c, w') \<and> denied w' c)
     \<and> (\<exists>c w'. redirectToAuthorization r w req = Inr (c, w') \<and> denied w' c))
   \<and> (\<not> scope_slot_ok (Context req) \<longrightarrow>
       panics (revokeProxy r w req) \<and> panics (accessForbidden r w req)
     \<and> panics (redirectToURL r url w req) \<and> panics (redirectToAuthorization r w req))
   \<and> (\<forall>a. AccessDenied (heap w a) \<longrightarrow>
         AccessDenied (heap (world_of (revokeProxy r w req)) a)
       \<and> AccessDenied (heap (world_of (accessForbidden r w req)) a)
       \<and> AccessDenied (heap (world_of (redirectToURL r url w req)) a)
       \<and> AccessDenied (heap (world_of (redirectToAuthorization r w req)) a))"
proof -
  obtain evs lg where af: "accessForbidden r w req =
      revokeProxy r (w\<lparr>resp := resp w @ WriteHeader 403 # evs, logs := logs w @ lg\<rparr>) req"
    using accessForbidden_world by blast
  let ?wf = "w\<lparr>resp := resp w @ WriteHeader 403 # evs, logs := logs w @ lg\<rparr>"
  let ?wu = "http_Redirect w req url StatusTemporaryRedirect"
  have ru: "redirectToURL r url w req = revokeProxy r ?wu req"
    by (simp add: redirectToURL_def)
  have hu: "heap ?wu = heap w" by (rule http_Redirect_heap)
  note o1 = revokeProxy_outcome [of req r w] and w1 = revokeProxy_world [of r w req]
  note o2 = revokeProxy_outcome [of req r ?wf] and w2 = revokeProxy_world [of r ?wf req]
  note o3 = revokeProxy_outcome [of req r ?wu] and w3 = revokeProxy_world [of r ?wu req]
  note o4 = rta_outcome [of req r w]
  show ?thesis
  proof (intro conjI impI allI)
    assume ok: "scope_slot_ok (Context req)"
    show "\<exists>c w'. revokeProxy r w req = Inr (c, w') \<and> denied w' c" using o1 ok by blast
    show "\<exists>c w'. accessForbidden r w req = Inr (c, w') \<and> denied w' c"
      unfolding af using o2 ok by blast
    show "\<exists>c w'. redirectToURL r url w req = Inr (c, w') \<and> denied w' c"
      unfolding ru using o3 ok by blast
    show "\<exists>c w'. redirectToAuthorization r w req = Inr (c, w') \<and> denied w' c"
      using o4 ok by blast
  next
    assume no: "\<not> scope_slot_ok (Context req)"
    show "panics (revokeProxy r w req)" using o1 no by blast
    show "panics (accessForbidden r w req)" unfolding af using o2 no by blast
    show "panics (redirectToURL r url w req)" unfolding ru using o3 no by blast
    show "panics (redirectToAuthorization r w req)" using o4 no by blast
  next
    fix a assume d: "AccessDenied (heap w a)"
    show "AccessDenied (heap (world_of (revokeProxy r w req)) a)" using w1 d by blast
    show "AccessDenied (heap (world_of (accessForbidden r w req)) a)"
      unfolding af using w2 d by simp
    show "AccessDenied (heap (world_of (redirectToURL r url w req)) a)"
      unfolding ru using w3 d hu by simp
    show "AccessDenied (heap (world_of (redirectToAuthorization r w req)) a)"
      using o4 d by blast
  qed
qed

theorem dispositions_deny_witness:
  "scope_slot_ok (Context sampleRequest)
   \<and> (\<exists>c w'. revokeProxy (sampleProxy sampleConfig) sampleWorld sampleRequest = Inr (c, w')
         \<and> denied w' c)
   \<and> (\<exists>c w'. accessForbidden (sampleProxy sampleConfig) sampleWorld sampleRequest = Inr (c, w')
         \<and> denied w' c)
   \<and> (\<exists>c w'. redirectToURL (sampleProxy sampleConfig) ''/login'' sampleWorld sampleRequest
                 = Inr (c, w') \<and> denied w' c)
   \<and> (\<exists>c w'. redirectToAuthorization (sampleProxy sampleConfig) sampleWorld sampleRequest
                 = Inr (c, w') \<and> denied w' c)
   \<and> \<not> scope_slot_ok (Context (sampleRequest\<lparr>Context :=
          (Context sampleRequest)(contextScopeName := IScopePtr None)\<rparr>))
   \<and> panics (accessForbidden (sampleProxy sampleConfig) sampleWorld
        (sampleRequest\<lparr>Context := (Context sampleRequest)(contextScopeName := IScopePtr None)\<rparr>))
   \<and> AccessDenied (heap (sampleWorld\<lparr>heap := (heap sampleWorld)(0 := \<lparr>AccessDenied = True\<rparr>)\<rparr>) 0)
   \<and> AccessDenied (heap (world_of (redirectToAuthorization (sampleProxy sampleConfig)
        (sampleWorld\<lparr>heap := (heap sampleWorld)(0 := \<lparr>AccessDenied = True\<rparr>)\<rparr>)
        (sampleRequest\<lparr>Context := (Context sampleRequest)(contextScopeName := IScopePtr None)\<rparr>))) 0)"
proof -
  let ?r = "sampleProxy sampleConfig"
  let ?bad = "sampleRequest\<lparr>Context := (Context sampleRequest)(contextScopeName := IScopePtr None)\<rparr>"
  let ?w = "sampleWorld\<lparr>heap := (heap sampleWorld)(0 := \<lparr>AccessDenied = True\<rparr>)\<rparr>"
  note t1 = dispositions_deny [of sampleRequest ?r sampleWorld "''/login''"]
  note t2 = dispositions_deny [of ?bad ?r sampleWorld "''/login''"]
  note t3 = dispositions_deny [of ?bad ?r ?w "''/login''"]
  have d: "AccessDenied (heap ?w 0)" by simp
  from t1 sample_slot_ok
  have 1: "\<exists>c w'. revokeProxy ?r sampleWorld sampleRequest = Inr (c, w') \<and> denied w' c"
    and 2: "\<exists>c w'. accessForbidden ?r sampleWorld sampleRequest = Inr (c, w') \<and> denied w' c"
    and 3: "\<exists>c w'. redirectToURL ?r ''/login'' sampleWorld sampleRequest = Inr (c, w') \<and> denied w' c"
    and 4: "\<exists>c w'. redirectToAuthorization ?r sampleWorld sampleRequest = Inr (c, w') \<and> denied w' c"
    by blast+
  from t2 nil_pointer_slot_not_ok have 5: "panics (accessForbidden ?r sampleWorld ?bad)"
    by blast
  from t3 d have 6: "AccessDenied (heap (world_of (redirectToAuthorization ?r ?w ?bad)) 0)"
    by blast
  from sample_slot_ok 1 2 3 4 nil_pointer_slot_not_ok 5 d 6 show ?thesis by blast
qed

theorem accessForbidden_nil_scope_counterexample:
  "accessForbidden (sampleProxy sampleConfig) sampleWorld
     (sampleRequest\<lparr>Context := (Context sampleRequest)(contextScopeName := IScopePtr None)\<rparr>)
   = Inl (NilDereference, sampleWorld\<lparr>resp := [WriteHeader 403]\<rparr>)"
  by (simp add: accessForbidden_def revokeProxy_def sampleProxy_def sampleConfig_def
      sampleWorld_def StatusForbidden_def)

text \<open>
  C2 (amended): with SkipTokenVerification set and NoRedirects not set,
  redirectToAuthorization writes status 403 and sets no header on every request; it
  returns a context whose scope has AccessDenied set when the context of the request
  holds nothing or a non-nil pointer to a scope under the scope key, and panics on
  any other request.
\<close>

theorem fail_closed_403:
  assumes "SkipTokenVerification (config r)" and "\<not> NoRedirects (config r)"
  shows "resp (world_of (redirectToAuthorization r w req)) = resp w @ [WriteHeader 403]
         \<and> header (world_of (redirectToAuthorization r w req)) = header w
         \<and> (scope_slot_ok (Context req) \<longrightarrow>
              (\<exists>c w'. redirectToAuthorization r w req = Inr (c, w') \<and> denied w' c))
         \<and> (\<not> scope_slot_ok (Context req) \<longrightarrow> panics (redirectToAuthorization r w req))"
proof -
  let ?w0 = "w\<lparr>logs := logs w @
            [''refusing to redirection to authorization endpoint, skip token verification switched on''],
          resp := resp w @ [WriteHeader 403]\<rparr>"
  from assms revokeProxy_outcome [of req r ?w0] revokeProxy_world [of r ?w0 req]
  show ?thesis by (simp add: rta_SkipTokenVerification_branch)
qed

theorem fail_closed_403_witness:
  "SkipTokenVerification (config (sampleProxy (sampleConfig\<lparr>SkipTokenVerification := True\<rparr>)))
   \<and> \<not> NoRedirects (config (sampleProxy (sampleConfig\<lparr>SkipTokenVerification := True\<rparr>)))
   \<and> scope_slot_ok (Context sampleRequest)
   \<and> resp (world_of (redirectToAuthorization
               (sampleProxy (sampleConfig\<lparr>SkipTokenVerification := True\<rparr>))
               sampleWorld sampleRequest)) = [WriteHeader 403]
   \<and> header (world_of (redirectToAuthorization
               (sampleProxy (sampleConfig\<lparr>SkipTokenVerification := True\<rparr>))
               sampleWorld sampleRequest)) ''Location'' = None
   \<and> (\<exists>c w'. redirectToAuthorization (sampleProxy (sampleConfig\<lparr>SkipTokenVerification := True\<rparr>))
                 sampleWorld sampleRequest = Inr (c, w') \<and> denied w' c)"
proof -
  let ?r = "sampleProxy (sampleConfig\<lparr>SkipTokenVerification := True\<rparr>)"
  have h1: "SkipTokenVerification (config ?r)" by (simp add: sampleProxy_def)
  have h2: "\<not> NoRedirects (config ?r)" by (simp add: sampleProxy_def sampleConfig_def)
  note t = fail_closed_403 [OF h1 h2, of sampleWorld sampleRequest]
  from t have 1: "resp (world_of (redirectToAuthorization ?r sampleWorld sampleRequest))
                    = [WriteHeader 403]"
    by (simp add: sampleWorld_def)
  from t have 2: "header (world_of (redirectToAuthorization ?r sampleWorld sampleRequest))
                    ''Location'' = None"
    by (simp add: sampleWorld_def)
  from t sample_slot_ok
  have 3: "\<exists>c w'. redirectToAuthorization ?r sampleWorld sampleRequest = Inr (c, w') \<and> denied w' c"
    by blast
  from h1 h2 sample_slot_ok 1 2 3 show ?thesis by blast
qed

theorem fail_closed_403_other_value_counterexample:
  "redirectToAuthorization (sampleProxy (sampleConfig\<lparr>SkipTokenVerification := True\<rparr>)) sampleWorld
     (sampleRequest\<lparr>Context := (Context sampleRequest)(contextScopeName := IOther ''user'')\<rparr>)
   = Inl (TypeAssertion,
          sampleWorld\<lparr>logs :=
              [''refusing to redirection to authorization endpoint, skip token verification switched on''],
            resp := [WriteHeader 403]\<rparr>)"
  by (simp add: redirectToAuthorization_def revokeProxy_def sampleProxy_def sampleConfig_def
      sampleWorld_def StatusForbidden_def)

text \<open>
  C4 (amended): with NoRedirects set, redirectToAuthorization writes status 401 and
  sets no header on every request; it returns a context whose scope has AccessDenied
  set when the context of the request holds nothing or a non-nil pointer to a scope
  under the scope key, and panics on any other request.
\<close>

theorem no_redirect_401:
  assumes "NoRedirects (config r)"
  shows "resp (world_of (redirectToAuthorization r w req)) = resp w @ [WriteHeader 401]
         \<and> header (world_of (redirectToAuthorization r w req)) = header w
         \<and> (scope_slot_ok (Context req) \<longrightarrow>
              (\<exists>c w'. redirectToAuthorization r w req = Inr (c, w') \<and> denied w' c))
         \<and> (\<not> scope_slot_ok (Context req) \<longrightarrow> panics (redirectToAuthorization r w req))"
proof -
  let ?w0 = "w\<lparr>resp := resp w @ [WriteHeader 401]\<rparr>"
  from assms revokeProxy_outcome [of req r ?w0] revokeProxy_world [of r ?w0 req]
  show ?thesis by (simp add: rta_NoRedirects_branch)
qed

theorem no_redirect_401_witness:
  "NoRedirects (config (sampleProxy (sampleConfig\<lparr>NoRedirects := True\<rparr>)))
   \<and> scope_slot_ok (Context sampleRequest)
   \<and> resp (world_of (redirectToAuthorization (sampleProxy (sampleConfig\<lparr>NoRedirects := True\<rparr>))
               sampleWorld sampleRequest)) = [WriteHeader 401]
   \<and> header (world_of (redirectToAuthorization (sampleProxy (sampleConfig\<lparr>NoRedirects := True\<rparr>))
               sampleWorld sampleRequest)) ''Location'' = None
   \<and> (\<exists>c w'. redirectToAuthorization (sampleProxy (sampleConfig\<lparr>NoRedirects := True\<rparr>))
                 sampleWorld sampleRequest = Inr (c, w') \<and> denied w' c)"
proof -
  let ?r = "sampleProxy (sampleConfig\<lparr>NoRedirects := True\<rparr>)"
  have h1: "NoRedirects (config ?r)" by (simp add: sampleProxy_def)
  note t = no_redirect_401 [OF h1, of sampleWorld sampleRequest]
  from t have 1: "resp (world_of (redirectToAuthorization ?r sampleWorld sampleRequest))
                    = [WriteHeader 401]"
    by (simp add: sampleWorld_def)
  from t have 2: "header (world_of (redirectToAuthorization ?r sampleWorld sampleRequest))
                    ''Location'' = None"
    by (simp add: sampleWorld_def)
  from t sample_slot_ok
  have 3: "\<exists>c w'. redirectToAuthorization ?r sampleWorld sampleRequest = Inr (c, w') \<and> denied w' c"
    by blast
  from h1 sample_slot_ok 1 2 3 show ?thesis by blast
qed

theorem no_redirect_401_nil_scope_counterexample:
  "redirectToAuthorization (sampleProxy (sampleConfig\<lparr>NoRedirects := True\<rparr>)) sampleWorld
     (sampleRequest\<lparr>Context := (Context sampleRequest)(contextScopeName := IScopePtr None)\<rparr>)
   = Inl (NilDereference, sampleWorld\<lparr>resp := [WriteHeader 401]\<rparr>)"
  by (simp add: redirectToAuthorization_def revokeProxy_def sampleProxy_def sampleConfig_def
      sampleWorld_def StatusUnauthorized_def)

lemma revokeProxy_uri: "revokeProxy r w (req\<lparr>RequestURI := u\<rparr>) = revokeProxy r w req"
  by (simp add: revokeProxy_def split: iface.splits option.splits)

text \<open>
  C10: with NoRedirects and SkipTokenVerification both set, redirectToAuthorization
  writes status 401 and not 403 on every request: it sets no header and logs no
  refusal, and its outcome does not depend on the request URI, so no state token
  enters it.
\<close>

theorem no_redirect_before_fail_closed:
  assumes "NoRedirects (config r)" and "SkipTokenVerification (config r)"
  shows "resp (world_of (redirectToAuthorization r w req)) = resp w @ [WriteHeader 401]
         \<and> header (world_of (redirectToAuthorization r w req)) = header w
         \<and> logs (world_of (redirectToAuthorization r w req)) = logs w
         \<and> (\<forall>u. redirectToAuthorization r w (req\<lparr>RequestURI := u\<rparr>)
                 = redirectToAuthorization r w req)"
proof -
  let ?w0 = "w\<lparr>resp := resp w @ [WriteHeader 401]\<rparr>"
  from assms(1) revokeProxy_world [of r ?w0 req]
  show ?thesis by (simp add: rta_NoRedirects_branch revokeProxy_uri)
qed

theorem no_redirect_before_fail_closed_witness:
  "NoRedirects (config (sampleProxy (sampleConfig\<lparr>NoRedirects := True, SkipTokenVerification := True\<rparr>)))
   \<and> SkipTokenVerification (config (sampleProxy (sampleConfig\<lparr>NoRedirects := True, SkipTokenVerification := True\<rparr>)))
   \<and> resp (world_of (redirectToAuthorization
        (sampleProxy (sampleConfig\<lparr>NoRedirects := True, SkipTokenVerification := True\<rparr>))
        sampleWorld sampleRequest)) = [WriteHeader 401]
   \<and> logs (world_of (redirectToAuthorization
        (sampleProxy (sampleConfig\<lparr>NoRedirects := True, SkipTokenVerification := True\<rparr>))
        sampleWorld sampleRequest)) = []
   \<and> resp (world_of (redirectToAuthorization
        (sampleProxy (sampleConfig\<lparr>NoRedirects := True, SkipTokenVerification := True\<rparr>))
        sampleWorld
        (sampleRequest\<lparr>Context := (Context sampleRequest)(contextScopeName := IOther ''user'')\<rparr>)))
       = [WriteHeader 401]
   \<and> redirectToAuthorization
        (sampleProxy (sampleConfig\<lparr>NoRedirects := True, SkipTokenVerification := True\<rparr>))
        sampleWorld (sampleRequest\<lparr>RequestURI := ''/other''\<rparr>)
      = redirectToAuthorization
        (sampleProxy (sampleConfig\<lparr>NoRedirects := True, SkipTokenVerification := True\<rparr>))
        sampleWorld sampleRequest"
proof -
  let ?r = "sampleProxy (sampleConfig\<lparr>NoRedirects := True, SkipTokenVerification := True\<rparr>)"
  let ?bad = "sampleRequest\<lparr>Context := (Context sampleRequest)(contextScopeName := IOther ''user'')\<rparr>"
  have h1: "NoRedirects (config ?r)" by (simp add: sampleProxy_def)
  have h2: "SkipTokenVerification (config ?r)" by (simp add: sampleProxy_def)
  note t = no_redirect_before_fail_closed [OF h1 h2, of sampleWorld sampleRequest]
  note t2 = no_redirect_before_fail_closed [OF h1 h2, of sampleWorld ?bad]
  from t have 1: "resp (world_of (redirectToAuthorization ?r sampleWorld sampleRequest))
                    = [WriteHeader 401]"
    by (simp add: sampleWorld_def)
  from t have 2: "logs (world_of (redirectToAuthorization ?r sampleWorld sampleRequest)) = []"
    by (simp add: sampleWorld_def)
  from t2 have 3: "resp (world_of (redirectToAuthorization ?r sampleWorld ?bad)) = [WriteHeader 401]"
    by (simp add: sampleWorld_def)
  from t have 4: "redirectToAuthorization ?r sampleWorld (sampleRequest\<lparr>RequestURI := ''/other''\<rparr>)
      = redirectToAuthorization ?r sampleWorld sampleRequest"
    by blast
  from h1 h2 1 2 3 4 show ?thesis by blast
qed

lemma sample_state: "generateStateParam ''/secret?x=1'' = ''OnBhdGg6L3NlY3JldD94PTE''"
  by (simp add: generateStateParam_def PathParamPrefix_def enc_def encodeURL_def)

lemma sample_target:
  "spec_authorization_target (sampleProxy sampleConfig) sampleRequest
     = ''https://proxy.example/oauth/authorize?state=OnBhdGg6L3NlY3JldD94PTE''"
  by (simp add: spec_authorization_target_def sampleProxy_def sampleRequest_def sample_state)

lemma slash_target:
  "spec_authorization_target (slashProxy sampleConfig) sampleRequest
     = ''/oauth//authorize?state=OnBhdGg6L3NlY3JldD94PTE''"
  by (simp add: spec_authorization_target_def slashProxy_def sampleProxy_def sampleRequest_def
      sample_state)

lemma sample_target_absolute:
  "\<not> parses_without_scheme_and_host
       ''https://proxy.example/oauth/authorize?state=OnBhdGg6L3NlY3JldD94PTE''"
  by (simp add: parses_without_scheme_and_host_def stringContainsCTLByte_def getScheme_def
      isLetter_def isDigit_def)

lemma slash_target_relative:
  "parses_without_scheme_and_host ''/oauth//authorize?state=OnBhdGg6L3NlY3JldD94PTE''"
  by (simp add: parses_without_scheme_and_host_def stringContainsCTLByte_def getScheme_def
      isLetter_def isDigit_def HasPrefix_def)

lemma slash_target_cleaned:
  "redirectTarget sampleRequest ''/oauth//authorize?state=OnBhdGg6L3NlY3JldD94PTE''
     = ''/oauth/authorize?state=OnBhdGg6L3NlY3JldD94PTE''"
  by (simp add: redirectTarget_def slash_target_relative HasPrefix_def HasSuffix_def
      path_Clean_def clean_element_def sampleRequest_def)

text \<open>
  C5 (amended): with neither NoRedirects nor SkipTokenVerification set,
  redirectToAuthorization redirects with status 307 on every request. The Location
  header is the target WithOAuthURI(authorizationURL + "?state=" + token of the
  request URI) as http.Redirect rewrites it, with bytes outside ASCII escaped: the
  target itself when it is ASCII and has a scheme or a host (or does not parse), and
  otherwise its path made absolute and cleaned, with the query kept. Without an
  earlier Content-Type a GET request also gets the short HTML body. A context whose
  scope has AccessDenied set is returned when the context of the request holds
  nothing or a non-nil pointer to a scope under the scope key; any other request
  panics after the redirect is written.
\<close>

theorem authorization_redirect_307:
  assumes "\<not> NoRedirects (config r)" and "\<not> SkipTokenVerification (config r)"
  shows "header (world_of (redirectToAuthorization r w req)) ''Location''
           = Some [hexEscapeNonASCII (redirectTarget req (spec_authorization_target r req))]
         \<and> resp (world_of (redirectToAuthorization r w req))
           = resp w @ WriteHeader 307 #
               (if header w ''Content-Type'' = None \<and> Method req = ''GET''
                then [Write (redirectBody (redirectTarget req (spec_authorization_target r req)) 307)]
                else [])
         \<and> header (world_of (redirectToAuthorization r w req)) ''Content-Type''
           = (if header w ''Content-Type'' = None \<and> (Method req = ''GET'' \<or> Method req = ''HEAD'')
              then Some [''text/html; charset=utf-8''] else header w ''Content-Type'')
         \<and> (\<not> parses_without_scheme_and_host (spec_authorization_target r req)
              \<and> list_all (\<lambda>c. (of_char c :: nat) < 128) (spec_authorization_target r req)
             \<longrightarrow> header (world_of (redirectToAuthorization r w req)) ''Location''
                   = Some [spec_authorization_target r req])
         \<and> (scope_slot_ok (Context req) \<longrightarrow>
              (\<exists>c w'. redirectToAuthorization r w req = Inr (c, w') \<and> denied w' c))
         \<and> (\<not> scope_slot_ok (Context req) \<longrightarrow> panics (redirectToAuthorization r w req))"
proof -
  note t = rta_redirect_world [OF assms, of w req]
  have ctype: "header (world_of (redirectToAuthorization r w req)) ''Content-Type''
           = (if header w ''Content-Type'' = None \<and> (Method req = ''GET'' \<or> Method req = ''HEAD'')
              then Some [''text/html; charset=utf-8''] else header w ''Content-Type'')"
    using t by (simp only: http_Redirect_Content_Type)
  have loc: "header (world_of (redirectToAuthorization r w req)) ''Location''
           = Some [hexEscapeNonASCII (redirectTarget req (spec_authorization_target r req))]"
    using t by (simp add: http_Redirect_Location)
  have rs: "resp (world_of (redirectToAuthorization r w req))
           = resp w @ WriteHeader 307 #
               (if header w ''Content-Type'' = None \<and> Method req = ''GET''
                then [Write (redirectBody (redirectTarget req (spec_authorization_target r req)) 307)]
                else [])"
    using t by (simp only: http_Redirect_resp)
  have same: "header (world_of (redirectToAuthorization r w req)) ''Location''
                   = Some [spec_authorization_target r req]"
    if "\<not> parses_without_scheme_and_host (spec_authorization_target r req)"
      and "list_all (\<lambda>c. (of_char c :: nat) < 128) (spec_authorization_target r req)"
    using that loc by (simp add: redirectTarget_def hexEscapeNonASCII_ascii)
  from loc rs ctype same t show ?thesis by blast
qed

theorem authorization_redirect_307_witness:
  "\<not> NoRedirects (config (sampleProxy sampleConfig))
   \<and> \<not> SkipTokenVerification (config (sampleProxy sampleConfig))
   \<and> scope_slot_ok (Context sampleRequest)
   \<and> generateStateParam ''/secret?x=1'' = ''OnBhdGg6L3NlY3JldD94PTE''
   \<and> spec_authorization_target (sampleProxy sampleConfig) sampleRequest
       = ''https://proxy.example/oauth/authorize?state=OnBhdGg6L3NlY3JldD94PTE''
   \<and> \<not> parses_without_scheme_and_host
         ''https://proxy.example/oauth/authorize?state=OnBhdGg6L3NlY3JldD94PTE''
   \<and> header (world_of (redirectToAuthorization (sampleProxy sampleConfig) sampleWorld sampleRequest))
         ''Location''
       = Some [''https://proxy.example/oauth/authorize?state=OnBhdGg6L3NlY3JldD94PTE'']
   \<and> resp (world_of (redirectToAuthorization (sampleProxy sampleConfig) sampleWorld sampleRequest))
       = [WriteHeader 307,
          Write (redirectBody
            ''https://proxy.example/oauth/authorize?state=OnBhdGg6L3NlY3JldD94PTE'' 307)]
   \<and> (\<exists>c w'. redirectToAuthorization (sampleProxy sampleConfig) sampleWorld sampleRequest
                 = Inr (c, w') \<and> denied w' c)"
proof -
  let ?r = "sampleProxy sampleConfig"
  let ?T = "''https://proxy.example/oauth/authorize?state=OnBhdGg6L3NlY3JldD94PTE''"
  have h1: "\<not> NoRedirects (config ?r)" by (simp add: sampleProxy_def sampleConfig_def)
  have h2: "\<not> SkipTokenVerification (config ?r)" by (simp add: sampleProxy_def sampleConfig_def)
  have a: "list_all (\<lambda>c. (of_char c :: nat) < 128) ?T" by simp
  have rt: "redirectTarget sampleRequest ?T = ?T"
    by (simp only: redirectTarget_def sample_target_absolute if_False)
  have ct: "header sampleWorld ''Content-Type'' = None \<and> Method sampleRequest = ''GET''"
    by (simp add: sampleWorld_def sampleRequest_def)
  note t = authorization_redirect_307 [OF h1 h2, of sampleWorld sampleRequest,
      unfolded sample_target]
  from t sample_target_absolute a
  have 1: "header (world_of (redirectToAuthorization ?r sampleWorld sampleRequest)) ''Location''
             = Some [?T]"
    by blast
  from t have "resp (world_of (redirectToAuthorization ?r sampleWorld sampleRequest))
       = resp sampleWorld @ WriteHeader 307 #
               (if header sampleWorld ''Content-Type'' = None \<and> Method sampleRequest = ''GET''
                then [Write (redirectBody (redirectTarget sampleRequest ?T) 307)]
                else [])"
    by blast
  then have 2: "resp (world_of (redirectToAuthorization ?r sampleWorld sampleRequest))
       = [WriteHeader 307, Write (redirectBody ?T 307)]"
    using ct by (simp add: rt sampleWorld_def)
  from t sample_slot_ok
  have 3: "\<exists>c w'. redirectToAuthorization ?r sampleWorld sampleRequest = Inr (c, w') \<and> denied w' c"
    by blast
  from h1 h2 sample_slot_ok sample_state sample_target sample_target_absolute 1 2 3
  show ?thesis by blast
qed

theorem cleaned_location_counterexample:
  "spec_authorization_target (slashProxy sampleConfig) sampleRequest
     = ''/oauth//authorize?state=OnBhdGg6L3NlY3JldD94PTE''
   \<and> header (world_of (redirectToAuthorization (slashProxy sampleConfig) sampleWorld sampleRequest))
         ''Location''
       = Some [''/oauth/authorize?state=OnBhdGg6L3NlY3JldD94PTE'']"
proof -
  let ?r = "slashProxy sampleConfig"
  have h1: "\<not> NoRedirects (config ?r)"
    by (simp add: slashProxy_def sampleProxy_def sampleConfig_def)
  have h2: "\<not> SkipTokenVerification (config ?r)"
    by (simp add: slashProxy_def sampleProxy_def sampleConfig_def)
  from rta_redirect_world [OF h1 h2, of sampleWorld sampleRequest]
  have "header (world_of (redirectToAuthorization ?r sampleWorld sampleRequest)) ''Location''
          = Some [hexEscapeNonASCII (redirectTarget sampleRequest
               ''/oauth//authorize?state=OnBhdGg6L3NlY3JldD94PTE'')]"
    by (simp add: http_Redirect_Location slash_target)
  then have "header (world_of (redirectToAuthorization ?r sampleWorld sampleRequest)) ''Location''
          = Some [''/oauth/authorize?state=OnBhdGg6L3NlY3JldD94PTE'']"
    by (simp add: slash_target_cleaned)
  with slash_target show ?thesis by blast
qed

lemma accessForbidden_panics_iff:
  "isl (accessForbidden r w req) \<longleftrightarrow> \<not> scope_slot_ok (Context req)"
proof -
  obtain evs lg where "accessForbidden r w req =
      revokeProxy r (w\<lparr>resp := resp w @ WriteHeader 403 # evs, logs := logs w @ lg\<rparr>) req"
    using accessForbidden_world by blast
  then show ?thesis by (simp add: revokeProxy_panics_iff)
qed

lemma rta_panics_iff:
  "isl (redirectToAuthorization r w req) \<longleftrightarrow> \<not> scope_slot_ok (Context req)"
proof (cases "scope_slot_ok (Context req)")
  case True
  with rta_outcome [of req r w] show ?thesis by auto
next
  case False
  with rta_outcome [of req r w] show ?thesis by (simp add: panics_isl)
qed

text \<open>
  C9 (amended): the dispositions return exactly when the context holds nothing or a
  non-nil pointer to a scope under the scope key, and panic otherwise; with nothing
  stored, revokeProxy makes a new scope with AccessDenied set and returns a context
  that points to it.
\<close>

theorem dispositions_panic_iff:
  "(panics (revokeProxy r w req) \<longleftrightarrow> \<not> scope_slot_ok (Context req))
   \<and> (panics (accessForbidden r w req) \<longleftrightarrow> \<not> scope_slot_ok (Context req))
   \<and> (panics (redirectToURL r url w req) \<longleftrightarrow> \<not> scope_slot_ok (Context req))
   \<and> (panics (redirectToAuthorization r w req) \<longleftrightarrow> \<not> scope_slot_ok (Context req))
   \<and> (Context req contextScopeName = INil \<longrightarrow>
        revokeProxy r w req =
          Inr (WithValue (Context req) contextScopeName (IScopePtr (Some (fresh w))),
               w\<lparr>heap := (heap w)(fresh w := \<lparr>AccessDenied = True\<rparr>),
                 fresh := Suc (fresh w)\<rparr>))"
  unfolding panics_isl
proof (intro conjI impI)
  show "isl (revokeProxy r w req) \<longleftrightarrow> \<not> scope_slot_ok (Context req)"
    by (rule revokeProxy_panics_iff)
  show "isl (accessForbidden r w req) \<longleftrightarrow> \<not> scope_slot_ok (Context req)"
    by (rule accessForbidden_panics_iff)
  show "isl (redirectToURL r url w req) \<longleftrightarrow> \<not> scope_slot_ok (Context req)"
    by (simp add: redirectToURL_def revokeProxy_panics_iff)
  show "isl (redirectToAuthorization r w req) \<longleftrightarrow> \<not> scope_slot_ok (Context req)"
    by (rule rta_panics_iff)
next
  assume "Context req contextScopeName = INil"
  then show "revokeProxy r w req =
          Inr (WithValue (Context req) contextScopeName (IScopePtr (Some (fresh w))),
               w\<lparr>heap := (heap w)(fresh w := \<lparr>AccessDenied = True\<rparr>),
                 fresh := Suc (fresh w)\<rparr>)"
    by (simp add: revokeProxy_def)
qed

theorem dispositions_panic_iff_witness:
  "Context sampleRequest contextScopeName = INil
   \<and> scope_slot_ok (Context sampleRequest)
   \<and> \<not> panics (revokeProxy (sampleProxy sampleConfig) sampleWorld sampleRequest)
   \<and> \<not> panics (accessForbidden (sampleProxy sampleConfig) sampleWorld sampleRequest)
   \<and> \<not> panics (redirectToURL (sampleProxy sampleConfig) ''/login'' sampleWorld sampleRequest)
   \<and> \<not> panics (redirectToAuthorization (sampleProxy sampleConfig) sampleWorld sampleRequest)
   \<and> revokeProxy (sampleProxy sampleConfig) sampleWorld sampleRequest =
       Inr (WithValue (Context sampleRequest) contextScopeName (IScopePtr (Some 0)),
            sampleWorld\<lparr>heap := (heap sampleWorld)(0 := \<lparr>AccessDenied = True\<rparr>), fresh := Suc 0\<rparr>)
   \<and> \<not> scope_slot_ok (Context (sampleRequest\<lparr>Context := (Context sampleRequest)(contextScopeName := IScopePtr None)\<rparr>))
   \<and> panics (redirectToAuthorization (sampleProxy sampleConfig) sampleWorld
            (sampleRequest\<lparr>Context := (Context sampleRequest)(contextScopeName := IScopePtr None)\<rparr>))"
proof -
  have n: "Context sampleRequest contextScopeName = INil" by (simp add: sampleRequest_def)
  have f: "fresh sampleWorld = 0" by (simp add: sampleWorld_def)
  note b = nil_pointer_slot_not_ok
  note t = dispositions_panic_iff [of "sampleProxy sampleConfig" sampleWorld sampleRequest "''/login''"]
  note t2 = dispositions_panic_iff [of "sampleProxy sampleConfig" sampleWorld
      "sampleRequest\<lparr>Context := (Context sampleRequest)(contextScopeName := IScopePtr None)\<rparr>" "''/login''"]
  from t n have 1: "revokeProxy (sampleProxy sampleConfig) sampleWorld sampleRequest =
       Inr (WithValue (Context sampleRequest) contextScopeName (IScopePtr (Some 0)),
            sampleWorld\<lparr>heap := (heap sampleWorld)(0 := \<lparr>AccessDenied = True\<rparr>), fresh := Suc 0\<rparr>)"
    by (simp add: f)
  from t2 b have 2: "panics (redirectToAuthorization (sampleProxy sampleConfig) sampleWorld
            (sampleRequest\<lparr>Context := (Context sampleRequest)(contextScopeName := IScopePtr None)\<rparr>))"
    by blast
  from t sample_slot_ok
  have 3: "\<not> panics (revokeProxy (sampleProxy sampleConfig) sampleWorld sampleRequest)"
    and 4: "\<not> panics (accessForbidden (sampleProxy sampleConfig) sampleWorld sampleRequest)"
    and 5: "\<not> panics (redirectToURL (sampleProxy sampleConfig) ''/login'' sampleWorld sampleRequest)"
    and 6: "\<not> panics (redirectToAuthorization (sampleProxy sampleConfig) sampleWorld sampleRequest)"
    by blast+
  from n sample_slot_ok 3 4 5 6 1 b 2 show ?thesis by blast
qed

theorem revokeProxy_other_value_counterexample:
  "revokeProxy (sampleProxy sampleConfig) sampleWorld
     (sampleRequest\<lparr>Context := (Context sampleRequest)(contextScopeName := IOther ''user'')\<rparr>)
   = Inl (TypeAssertion, sampleWorld)"
  by (simp add: revokeProxy_def)

end
